theory Spec2Isabelle
  imports Main
begin

unbundle bit_operations_syntax

section \<open>The signals framework of keepalived (lib/signals.c)\<close>

text \<open>
  The embedding follows \<^verbatim>\<open>lib/signals.c\<close> function by function. The static variables
  of the file and the part of the kernel the file talks to (signal dispositions, the
  signal mask, the descriptor table and the pipes) are the fields of one record that
  every operation takes and returns.

  Build configuration: \<^verbatim>\<open>_WITH_JSON_\<close> and \<^verbatim>\<open>_DEBUG_\<close> undefined (so \<^verbatim>\<open>NDEBUG\<close> is
  defined and \<^verbatim>\<open>assert\<close> expands to nothing), \<^verbatim>\<open>HAVE_PIPE2\<close> defined, Linux signal
  numbers of the architectures "except alpha and sparc" of signal(7).
  \<^verbatim>\<open>get_signum\<close> (lines 90-108) and \<^verbatim>\<open>signal_pending\<close> (compiled out) are left out:
  no property below is about them.
\<close>

subsection \<open>Pointers and constants of the platform\<close>

text \<open>
  Pointer values the code tells apart. On Linux \<^verbatim>\<open>SIG_DFL\<close> is the null pointer,
  \<^verbatim>\<open>SIG_IGN\<close> is 1 and \<^verbatim>\<open>SIG_ERR\<close> is -1; \<open>signal_handler_addr\<close> is the address of the
  static function \<^verbatim>\<open>signal_handler\<close>; \<open>Addr a\<close> is any other address (a callback of the
  application, or a context object).
\<close>

datatype ptr = NULL | SIG_IGN | SIG_ERR | signal_handler_addr | Addr nat

abbreviation SIG_DFL :: ptr where "SIG_DFL \<equiv> NULL"

named_theorems signum \<open>values of the signal numbers and limits\<close>

definition SIGHUP :: int where [signum]: "SIGHUP = 1"
definition SIGINT :: int where [signum]: "SIGINT = 2"
definition SIGILL :: int where [signum]: "SIGILL = 4"
definition SIGBUS :: int where [signum]: "SIGBUS = 7"
definition SIGFPE :: int where [signum]: "SIGFPE = 8"
definition SIGKILL :: int where [signum]: "SIGKILL = 9"
definition SIGUSR1 :: int where [signum]: "SIGUSR1 = 10"
definition SIGSEGV :: int where [signum]: "SIGSEGV = 11"
definition SIGUSR2 :: int where [signum]: "SIGUSR2 = 12"
definition SIGTERM :: int where [signum]: "SIGTERM = 15"
definition SIGCHLD :: int where [signum]: "SIGCHLD = 17"
definition SIGSTOP :: int where [signum]: "SIGSTOP = 19"
definition SIGRTMAX :: int where [signum]: "SIGRTMAX = 64"

text \<open>
  The two numbers that glibc keeps for its thread library (\<^verbatim>\<open>__SIGRTMIN\<close> and
  \<^verbatim>\<open>__SIGRTMIN + 1\<close>, below the \<^verbatim>\<open>SIGRTMIN\<close> an application sees).
\<close>

definition SIGCANCEL :: int where [signum]: "SIGCANCEL = 32"
definition SIGSETXID :: int where [signum]: "SIGSETXID = 33"

text \<open>\<^verbatim>\<open>#if SIGCHLD > SIGUSR2 ... #define SIG_MAX SIGCHLD\<close> (lines 68-70).\<close>

definition SIG_MAX :: int where [signum]: "SIG_MAX = (if SIGCHLD > SIGUSR2 then SIGCHLD else SIGUSR2)"

definition SA_SIGINFO :: int where "SA_SIGINFO = 4"
definition SA_RESTART :: int where "SA_RESTART = 268435456"

datatype oflag = O_CLOEXEC | O_NONBLOCK

subsection \<open>The state: the file's static variables and the kernel's side\<close>

text \<open>
  What the kernel keeps for one signal. \<^verbatim>\<open>sa_handler\<close> and \<^verbatim>\<open>sa_sigaction\<close> share
  their storage (a union), \<^verbatim>\<open>sa_mask\<close> is always empty in this file and is left out.
\<close>

record k_sigaction =
  sa_handler :: ptr
  sa_flags :: int

definition sa_sigaction :: "k_sigaction \<Rightarrow> ptr" where
  "sa_sigaction a = sa_handler a"

text \<open>
  An open descriptor is an end of a pipe (with the flags it was opened with) or some
  other open file, of which the model keeps only that the number is taken.
\<close>

datatype fd_kind = Pipe_read nat | Pipe_write nat | Other_file

record fd_entry =
  kind :: fd_kind
  fl :: "oflag set"

datatype how = SIG_BLOCK | SIG_UNBLOCK

datatype errno = EINVAL | EBADF | EAGAIN | EMFILE

text \<open>The system calls made, in order, with their arguments.\<close>

datatype syscall =
    Sys_sigprocmask how "int set"
  | Sys_sigaction int "k_sigaction option"
  | Sys_close int
  | Sys_pipe2 "oflag set"
  | Sys_read int
  | Sys_write int int

datatype log_msg =
    Invalid_signal int int
  | Bug_write errno
  | Bug_pipe errno

record state =
  signal_handler_func :: "nat \<Rightarrow> ptr"
  signal_v :: "nat \<Rightarrow> ptr"
  signal_pipe :: "nat \<Rightarrow> int"
  ign_sig :: "int set"
  dfl_sig :: "int set"
  parent_sig :: "int set"
  k_disp :: "int \<Rightarrow> k_sigaction"
  k_blocked :: "int set"
  k_fds :: "int \<rightharpoonup> fd_entry"
  k_pipes :: "nat \<Rightarrow> int list"
  k_npipes :: nat
  k_pipe_cap :: nat
  k_nofile :: nat
  calls :: "syscall list"
  logged :: "log_msg list"
  invoked :: "(ptr \<times> ptr \<times> int) list"

text \<open>
  \<open>signal_handler_func\<close> and \<open>signal_v\<close> are the arrays of \<open>SIG_MAX\<close> entries (only the
  indices below \<open>SIG_MAX\<close> are ever read or written), \<open>signal_pipe\<close> the array of two
  descriptors. \<open>k_disp\<close> is the disposition of each signal, \<open>k_blocked\<close> the signal
  mask, \<open>k_fds\<close> the descriptor table, \<open>k_pipes\<close> the queued records of each pipe
  (one record is one \<^verbatim>\<open>int\<close>, written and read whole), \<open>k_pipe_cap\<close> the number of
  records a pipe holds, \<open>k_nofile\<close> the limit on descriptor numbers. \<open>invoked\<close> lists the
  calls of registered callbacks as (function, context, signal): the callbacks belong
  to the application and are taken not to touch this state.
\<close>

subsection \<open>libc and kernel\<close>

text \<open>
  A \<^verbatim>\<open>sigset_t\<close> is the set of the signal numbers in it. The signals are the numbers
  from 1 to \<open>SIGRTMAX\<close>. \<^verbatim>\<open>sigfillset\<close> gives them all but the two that the C library
  keeps for itself, \<open>SIGCANCEL\<close> and \<open>SIGSETXID\<close>; \<^verbatim>\<open>sigaddset\<close> and \<^verbatim>\<open>sigdelset\<close> fail,
  and change nothing, for a number that is no signal.
\<close>

definition sigemptyset :: "int set" where
  "sigemptyset = {}"

definition sigfillset :: "int set" where
  "sigfillset = {1..SIGRTMAX} - {SIGCANCEL, SIGSETXID}"

definition sigaddset :: "int set \<Rightarrow> int \<Rightarrow> int set" where
  "sigaddset S signo = (if 1 \<le> signo \<and> signo \<le> SIGRTMAX then insert signo S else S)"

definition sigdelset :: "int set \<Rightarrow> int \<Rightarrow> int set" where
  "sigdelset S signo = (if 1 \<le> signo \<and> signo \<le> SIGRTMAX then S - {signo} else S)"

definition sigismember :: "int set \<Rightarrow> int \<Rightarrow> bool" where
  "sigismember S signo = (signo \<in> S)"

definition log_message :: "log_msg \<Rightarrow> state \<Rightarrow> state" where
  "log_message m s = s\<lparr>logged := logged s @ [m]\<rparr>"

text \<open>SIGKILL and SIGSTOP cannot be blocked: the kernel drops them from the set.\<close>

definition sigprocmask :: "how \<Rightarrow> int set \<Rightarrow> state \<Rightarrow> state" where
  "sigprocmask h sset s =
     s\<lparr>k_blocked := (case h of
          SIG_BLOCK \<Rightarrow> k_blocked s \<union> (sset - {SIGKILL, SIGSTOP})
        | SIG_UNBLOCK \<Rightarrow> k_blocked s - sset),
       calls := calls s @ [Sys_sigprocmask h sset]\<rparr>"

text \<open>
  \<^verbatim>\<open>sigaction(sig, act, oact)\<close>: fails with EINVAL for a number that is no signal and
  for an attempt to change SIGKILL or SIGSTOP; otherwise gives the old action back and
  installs the new one when there is one.
\<close>

definition sigaction :: "int \<Rightarrow> k_sigaction option \<Rightarrow> state \<Rightarrow> (errno + k_sigaction) \<times> state" where
  "sigaction sig act s =
     (let s' = s\<lparr>calls := calls s @ [Sys_sigaction sig act]\<rparr> in
      if sig < 1 \<or> sig > SIGRTMAX \<or> (act \<noteq> None \<and> (sig = SIGKILL \<or> sig = SIGSTOP))
      then (Inl EINVAL, s')
      else (Inr (k_disp s sig),
            case act of None \<Rightarrow> s' | Some a \<Rightarrow> s'\<lparr>k_disp := (k_disp s)(sig := a)\<rparr>))"

definition close :: "int \<Rightarrow> state \<Rightarrow> (errno + unit) \<times> state" where
  "close fd s =
     (let s' = s\<lparr>calls := calls s @ [Sys_close fd]\<rparr> in
      case k_fds s fd of
        None \<Rightarrow> (Inl EBADF, s')
      | Some e \<Rightarrow> (Inr (), s'\<lparr>k_fds := (k_fds s)(fd := None)\<rparr>))"

text \<open>The descriptor numbers below the limit that are not in use, lowest first.\<close>

definition free_fds :: "state \<Rightarrow> int list" where
  "free_fds s = filter (\<lambda>fd. k_fds s fd = None) (map int [0..<k_nofile s])"

definition pipe2 :: "oflag set \<Rightarrow> state \<Rightarrow> (errno + int \<times> int) \<times> state" where
  "pipe2 flags s =
     (let s' = s\<lparr>calls := calls s @ [Sys_pipe2 flags]\<rparr> in
      case free_fds s of
        r # w # _ \<Rightarrow>
          (Inr (r, w),
           s'\<lparr>k_fds := (k_fds s)(r \<mapsto> \<lparr>kind = Pipe_read (k_npipes s), fl = flags\<rparr>,
                                  w \<mapsto> \<lparr>kind = Pipe_write (k_npipes s), fl = flags\<rparr>),
              k_pipes := (k_pipes s)(k_npipes s := []),
              k_npipes := Suc (k_npipes s)\<rparr>)
      | _ \<Rightarrow> (Inl EMFILE, s'))"

text \<open>
  \<^verbatim>\<open>read\<close> and \<^verbatim>\<open>write\<close> of one \<^verbatim>\<open>int\<close> (\<open>read_fd\<close>, \<open>write_fd\<close>). On a descriptor without \<^verbatim>\<open>O_NONBLOCK\<close> a read
  from an empty pipe and a write to a full one do not return. The model does not
  follow files other than pipes: a transfer there is reported as failed.
\<close>

datatype io_result = Transferred int | Failed errno | Blocked

definition read_fd :: "int \<Rightarrow> state \<Rightarrow> io_result \<times> state" where
  "read_fd fd s =
     (let s' = s\<lparr>calls := calls s @ [Sys_read fd]\<rparr> in
      case k_fds s fd of
        None \<Rightarrow> (Failed EBADF, s')
      | Some e \<Rightarrow>
          (case kind e of
             Pipe_read p \<Rightarrow>
               (case k_pipes s p of
                  [] \<Rightarrow> (if O_NONBLOCK \<in> fl e then Failed EAGAIN else Blocked, s')
                | x # xs \<Rightarrow> (Transferred x, s'\<lparr>k_pipes := (k_pipes s)(p := xs)\<rparr>))
           | _ \<Rightarrow> (Failed EBADF, s')))"

definition write_fd :: "int \<Rightarrow> int \<Rightarrow> state \<Rightarrow> io_result \<times> state" where
  "write_fd fd v s =
     (let s' = s\<lparr>calls := calls s @ [Sys_write fd v]\<rparr> in
      case k_fds s fd of
        None \<Rightarrow> (Failed EBADF, s')
      | Some e \<Rightarrow>
          (case kind e of
             Pipe_write p \<Rightarrow>
               (if length (k_pipes s p) < k_pipe_cap s
                then (Transferred v, s'\<lparr>k_pipes := (k_pipes s)(p := k_pipes s p @ [v])\<rparr>)
                else (if O_NONBLOCK \<in> fl e then Failed EAGAIN else Blocked, s'))
           | _ \<Rightarrow> (Failed EBADF, s')))"

subsection \<open>The functions of signals.c\<close>

text \<open>
  \<^verbatim>\<open>signal_handler\<close> (lines 132-141), run by the kernel when a signal routed to it is
  delivered. \<open>None\<close>: the write does not return.
\<close>

definition signal_handler :: "int \<Rightarrow> state \<Rightarrow> state option" where
  "signal_handler sig s =
     (case write_fd (signal_pipe s 1) sig s of
        (Transferred _, s') \<Rightarrow> Some s'
      | (Failed e, s') \<Rightarrow> Some (log_message (Bug_write e) s')
      | (Blocked, s') \<Rightarrow> None)"

text \<open>\<^verbatim>\<open>signal_set\<close> (lines 144-198).\<close>

definition signal_set :: "int \<Rightarrow> ptr \<Rightarrow> ptr \<Rightarrow> state \<Rightarrow> ptr \<times> state" where
  "signal_set signo func0 v0 s =
     (if signo < 1 \<or> signo > SIG_MAX
      then (NULL, log_message (Invalid_signal signo SIG_MAX) s)
      else
        let sentinel = (func0 = SIG_IGN \<or> func0 = SIG_DFL);
            sig = \<lparr>sa_handler = (if sentinel then func0 else signal_handler_addr),
                   sa_flags = 0 OR SA_RESTART\<rparr>;
            func = (if sentinel then NULL else func0);
            v = (if sentinel then NULL else v0);
            sset = sigaddset sigemptyset signo;
            s1 = (if func \<noteq> NULL
                  then let sb = sigprocmask SIG_BLOCK sset s
                       in sb\<lparr>parent_sig := sigaddset (parent_sig sb) signo\<rparr>
                  else s);
            (ret, s2) = sigaction signo (Some sig) s1;
            s3 = s2\<lparr>signal_handler_func := (signal_handler_func s2)(nat (signo - 1) := func),
                    signal_v := (signal_v s2)(nat (signo - 1) := v)\<rparr>
        in case ret of
             Inl _ \<Rightarrow> (SIG_ERR, s3)
           | Inr osig \<Rightarrow>
               (if sa_flags osig AND SA_SIGINFO \<noteq> 0 then sa_sigaction osig else sa_handler osig,
                if func \<noteq> NULL then sigprocmask SIG_UNBLOCK sset s3 else s3))"

text \<open>\<^verbatim>\<open>signal_ignore\<close> (lines 201-205).\<close>

definition signal_ignore :: "int \<Rightarrow> state \<Rightarrow> ptr \<times> state" where
  "signal_ignore signo s = signal_set signo SIG_IGN NULL s"

text \<open>\<^verbatim>\<open>clear_signal_handler_addresses\<close> (lines 207-214): the loop over \<open>i = 0 .. SIG_MAX - 1\<close>.\<close>

definition clear_signal_handler_addresses :: "state \<Rightarrow> state" where
  "clear_signal_handler_addresses s =
     fold (\<lambda>i s. s\<lparr>signal_handler_func := (signal_handler_func s)(i := NULL)\<rparr>)
          [0..<nat SIG_MAX] s"

text \<open>
  \<^verbatim>\<open>open_signal_pipe\<close> (lines 217-239), the \<^verbatim>\<open>HAVE_PIPE2\<close> branch. When \<^verbatim>\<open>pipe2\<close> fails the
  array \<open>signal_pipe\<close> is left as it was and the failure is logged.
\<close>

definition open_signal_pipe :: "state \<Rightarrow> state" where
  "open_signal_pipe s =
     (case pipe2 {O_CLOEXEC, O_NONBLOCK} s of
        (Inr (r, w), s') \<Rightarrow> s'\<lparr>signal_pipe := (signal_pipe s')(0 := r, 1 := w)\<rparr>
      | (Inl e, s') \<Rightarrow> log_message (Bug_pipe e) s')"

text \<open>
  \<^verbatim>\<open>signal_handler_init\<close> (lines 241-284). The loop variable \<open>oact\<close> is written by a
  successful \<^verbatim>\<open>sigaction\<close> only; \<open>None\<close> is the variable before its first write, which
  compares unequal to \<^verbatim>\<open>SIG_IGN\<close> here (the query never fails for the signals of the
  loop, see \<open>sigaction_query\<close> below).
\<close>

definition init_sset :: "int set" where
  "init_sset =
     sigdelset (sigdelset (sigdelset (sigdelset (sigdelset (sigdelset sigfillset
       SIGILL) SIGFPE) SIGSEGV) SIGBUS) SIGKILL) SIGSTOP"

definition init_step :: "int \<Rightarrow> k_sigaction option \<times> state \<Rightarrow> k_sigaction option \<times> state" where
  "init_step sig = (\<lambda>(oact0, s).
     if sigismember init_sset sig then
       (let (r, s1) = sigaction sig None s;
            oact = (case r of Inr oa \<Rightarrow> Some oa | Inl _ \<Rightarrow> oact0)
        in if map_option sa_handler oact = Some SIG_IGN
           then (oact, s1\<lparr>ign_sig := sigaddset (ign_sig s1) sig\<rparr>)
           else (let (_, s2) = sigaction sig (Some \<lparr>sa_handler = SIG_IGN, sa_flags = 0\<rparr>) s1
                 in (oact, s2\<lparr>dfl_sig := sigaddset (dfl_sig s2) sig\<rparr>)))
     else (oact0, s))"

definition signal_handler_init :: "state \<Rightarrow> state" where
  "signal_handler_init s =
     (let s1 = clear_signal_handler_addresses (open_signal_pipe s);
          s2 = s1\<lparr>ign_sig := sigemptyset, dfl_sig := sigemptyset, parent_sig := sigemptyset\<rparr>
      in snd (fold init_step [1..SIGRTMAX] (None, s2)))"

text \<open>\<^verbatim>\<open>signal_handler_child_clear\<close> (lines 286-304).\<close>

definition child_clear_step :: "int \<Rightarrow> state \<Rightarrow> state" where
  "child_clear_step sig s =
     (if sigismember (parent_sig s) sig
      then snd (sigaction sig (Some \<lparr>sa_handler = SIG_IGN, sa_flags = 0\<rparr>) s)
      else s)"

definition signal_handler_child_clear :: "state \<Rightarrow> state" where
  "signal_handler_child_clear s =
     clear_signal_handler_addresses (open_signal_pipe (fold child_clear_step [1..SIGRTMAX] s))"

text \<open>\<^verbatim>\<open>signal_handlers_clear\<close> (lines 306-319) and \<^verbatim>\<open>signal_handler_destroy\<close> (lines 321-329).\<close>

definition signal_handlers_clear :: "ptr \<Rightarrow> state \<Rightarrow> state" where
  "signal_handlers_clear st s =
     (let s1 = snd (signal_set SIGHUP st NULL s);
          s2 = snd (signal_set SIGINT st NULL s1);
          s3 = snd (signal_set SIGTERM st NULL s2);
          s4 = snd (signal_set SIGCHLD st NULL s3);
          s5 = snd (signal_set SIGUSR1 st NULL s4)
      in snd (signal_set SIGUSR2 st NULL s5))"

definition signal_handler_destroy :: "state \<Rightarrow> state" where
  "signal_handler_destroy s =
     (let s1 = signal_handlers_clear SIG_IGN s;
          s2 = snd (close (signal_pipe s1 1) s1);
          s3 = snd (close (signal_pipe s2 0) s2)
      in s3\<lparr>signal_pipe := (signal_pipe s3)(1 := - 1, 0 := - 1)\<rparr>)"

text \<open>\<^verbatim>\<open>signal_handler_script\<close> (lines 333-352).\<close>

definition script_step :: "int \<Rightarrow> state \<Rightarrow> state" where
  "script_step sig s =
     (if sigismember (ign_sig s) sig
      then snd (sigaction sig (Some \<lparr>sa_handler = SIG_IGN, sa_flags = 0\<rparr>) s)
      else if sigismember (dfl_sig s) sig
      then snd (sigaction sig (Some \<lparr>sa_handler = SIG_DFL, sa_flags = 0\<rparr>) s)
      else s)"

definition signal_handler_script :: "state \<Rightarrow> state" where
  "signal_handler_script s = fold script_step [1..SIGRTMAX] s"

definition signal_rfd :: "state \<Rightarrow> int" where
  "signal_rfd s = signal_pipe s 0"

text \<open>\<^verbatim>\<open>signal_pipe_close\<close> (lines 372-378).\<close>

definition signal_pipe_close :: "int \<Rightarrow> state \<Rightarrow> state" where
  "signal_pipe_close min_fd s =
     (let s1 = (if signal_pipe s 0 \<noteq> 0 \<and> signal_pipe s 0 \<ge> min_fd
                then snd (close (signal_pipe s 0) s) else s)
      in if signal_pipe s1 1 \<noteq> 0 \<and> signal_pipe s1 1 \<ge> min_fd
         then snd (close (signal_pipe s1 1) s1) else s1)"

text \<open>
  \<^verbatim>\<open>signal_run_callback\<close> (lines 361-370). \<open>run_callback\<close> is the body of the loop for one
  record read; the loop ends at the first read that does not give a whole record.
  \<open>None\<close>: a read does not return.
\<close>

definition run_callback :: "int \<Rightarrow> state \<Rightarrow> state" where
  "run_callback sig s =
     (if sig \<ge> 1 \<and> sig \<le> SIG_MAX \<and> signal_handler_func s (nat (sig - 1)) \<noteq> NULL
      then s\<lparr>invoked := invoked s @
               [(signal_handler_func s (nat (sig - 1)), signal_v s (nat (sig - 1)), sig)]\<rparr>
      else s)"

text \<open>The records waiting behind the read end \<open>signal_pipe[0]\<close>.\<close>

definition pending :: "state \<Rightarrow> int list" where
  "pending s =
     (case k_fds s (signal_pipe s 0) of
        None \<Rightarrow> []
      | Some e \<Rightarrow> (case kind e of Pipe_read p \<Rightarrow> k_pipes s p | _ \<Rightarrow> []))"

function signal_run_callback :: "state \<Rightarrow> state option" where
  "signal_run_callback s =
     (case read_fd (signal_pipe s 0) s of
        (Transferred sig, s') \<Rightarrow> signal_run_callback (run_callback sig s')
      | (Failed _, s') \<Rightarrow> Some s'
      | (Blocked, s') \<Rightarrow> None)"
  by pat_completeness auto

termination signal_run_callback
proof (relation "measure (\<lambda>s. length (pending s))")
  show "wf (measure (\<lambda>s. length (pending s)))" by simp
next
  fix s x s' sig
  assume "(x, s') = read_fd (signal_pipe s 0) s" "x = Transferred sig"
  then have rd: "read_fd (signal_pipe s 0) s = (Transferred sig, s')" by simp
  then have "pending s = sig # pending s'"
    by (auto simp: read_fd_def pending_def Let_def
          split: option.splits fd_kind.splits list.splits if_splits)
  moreover have "pending (run_callback sig s') = pending s'"
    by (simp add: run_callback_def pending_def split: option.splits fd_kind.splits)
  ultimately show "(run_callback sig s', s) \<in> measure (\<lambda>s. length (pending s))"
    by simp
qed

declare signal_run_callback.simps [simp del]

text \<open>
  The state of a process that has just been started: the static variables as the C
  initialisers leave them, every signal at its default action, no signal blocked,
  the three standard descriptors open, a pipe of 16384 records (64 KiB), 1024
  descriptors.
\<close>

definition boot :: state where
  "boot = \<lparr>signal_handler_func = (\<lambda>_. NULL), signal_v = (\<lambda>_. NULL),
            signal_pipe = (\<lambda>_. - 1),
            ign_sig = {}, dfl_sig = {}, parent_sig = {},
            k_disp = (\<lambda>_. \<lparr>sa_handler = SIG_DFL, sa_flags = 0\<rparr>),
            k_blocked = {},
            k_fds = [0 \<mapsto> \<lparr>kind = Other_file, fl = {}\<rparr>,
                     1 \<mapsto> \<lparr>kind = Other_file, fl = {}\<rparr>,
                     2 \<mapsto> \<lparr>kind = Other_file, fl = {}\<rparr>],
            k_pipes = (\<lambda>_. []), k_npipes = 0, k_pipe_cap = 16384, k_nofile = 1024,
            calls = [], logged = [], invoked = []\<rparr>"

text \<open>The system calls of one round of the loop of \<open>signal_handler_init\<close>.\<close>

definition init_calls :: "state \<Rightarrow> int \<Rightarrow> syscall list" where
  "init_calls s sig =
     (if sig \<in> init_sset
      then Sys_sigaction sig None #
           (if sa_handler (k_disp s sig) = SIG_IGN then []
            else [Sys_sigaction sig (Some \<lparr>sa_handler = SIG_IGN, sa_flags = 0\<rparr>)])
      else [])"

text \<open>
  The calls of \<open>signal_set\<close> and \<open>signal_ignore\<close> that an application makes, one after
  the other (their results dropped).
\<close>

datatype call = Call_signal_set int ptr ptr | Call_signal_ignore int

fun run_calls :: "call list \<Rightarrow> state \<Rightarrow> state" where
  "run_calls [] s = s"
| "run_calls (Call_signal_set signo func v # cs) s = run_calls cs (snd (signal_set signo func v s))"
| "run_calls (Call_signal_ignore signo # cs) s = run_calls cs (snd (signal_ignore signo s))"

text \<open>
  The kernel delivers signal \<open>n\<close> to the process \<open>k\<close> times while the disposition
  of \<open>n\<close> is \<open>signal_handler\<close>: the handler runs \<open>k\<close> times.
\<close>

fun deliver :: "int \<Rightarrow> nat \<Rightarrow> state \<Rightarrow> state option" where
  "deliver n 0 s = Some s"
| "deliver n (Suc k) s =
     (case signal_handler n s of None \<Rightarrow> None | Some s' \<Rightarrow> deliver n k s')"

text \<open>
  What section 4.3 of the specification asks of the dispatch for the records \<open>xs\<close>
  read from the pipe, in their order: one call per record that is a valid number
  with a callback registered, with the stored context and the number.
\<close>

definition spec_dispatch :: "state \<Rightarrow> int list \<Rightarrow> (ptr \<times> ptr \<times> int) list" where
  "spec_dispatch s xs =
     map (\<lambda>x. (signal_handler_func s (nat (x - 1)), signal_v s (nat (x - 1)), x))
         (filter (\<lambda>x. 1 \<le> x \<and> x \<le> SIG_MAX \<and> signal_handler_func s (nat (x - 1)) \<noteq> NULL) xs)"

text \<open>
  The invariant of section 3 of the specification: for every signal number of the
  table, the callback of the slot is not null exactly when the disposition of the
  signal is \<open>signal_handler\<close>.
\<close>

definition table_inv :: "state \<Rightarrow> bool" where
  "table_inv s \<longleftrightarrow>
     (\<forall>n \<in> {1..SIG_MAX}.
        signal_handler_func s (nat (n - 1)) \<noteq> NULL \<longleftrightarrow>
        sa_handler (k_disp s n) = signal_handler_addr)"

text \<open>
  Two facts of bookkeeping that hold at process start and that every operation
  keeps (lemmas \<open>table_wf_boot\<close> to \<open>table_wf_signal_handler_destroy\<close> below): the
  signal of every slot with a callback is in the parent-installed set, and SIGKILL
  is not routed to \<open>signal_handler\<close>.
\<close>

definition table_wf :: "state \<Rightarrow> bool" where
  "table_wf s \<longleftrightarrow>
     (\<forall>n \<in> {1..SIG_MAX}. signal_handler_func s (nat (n - 1)) \<noteq> NULL \<longrightarrow> n \<in> parent_sig s) \<and>
     sa_handler (k_disp s SIGKILL) \<noteq> signal_handler_addr"

section \<open>Properties\<close>

subsection \<open>Facts about the kernel calls\<close>

lemma sigaction_fails_iff:
  "fst (sigaction sig (Some a) s) = Inl e \<longleftrightarrow>
     e = EINVAL \<and> (sig < 1 \<or> sig > SIGRTMAX \<or> sig = SIGKILL \<or> sig = SIGSTOP)"
  by (auto simp: sigaction_def Let_def)

lemma close_fields [simp]:
  "signal_pipe (snd (close fd s)) = signal_pipe s"
  "k_fds (snd (close fd s)) = (k_fds s)(fd := None)"
  "calls (snd (close fd s)) = calls s @ [Sys_close fd]"
  "logged (snd (close fd s)) = logged s"
  by (auto simp: close_def Let_def split: option.splits)

lemma upt_split3:
  assumes "a < b" "b < (n::nat)"
  shows "[0..<n] = [0..<a] @ a # [Suc a..<b] @ b # [Suc b..<n]"
proof -
  have "[0..<n] = [0..<b] @ [b..<n]"
    using upt_add_eq_append [of 0 b "n - b"] assms by simp
  moreover have "[0..<b] = [0..<a] @ [a..<b]"
    using upt_add_eq_append [of 0 a "b - a"] assms by simp
  moreover have "[a..<b] = a # [Suc a..<b]" using assms by (simp only: upt_conv_Cons)
  moreover have "[b..<n] = b # [Suc b..<n]" using assms by (simp only: upt_conv_Cons)
  ultimately show ?thesis by simp
qed

text \<open>\<^verbatim>\<open>pipe2\<close> hands out the two lowest descriptor numbers that are free.\<close>

lemma free_fds_lowest:
  assumes "0 \<le> r" "r < w" "w < int (k_nofile s)"
    and "k_fds s r = None" "k_fds s w = None"
    and "\<forall>i. 0 \<le> i \<and> i < w \<and> i \<noteq> r \<longrightarrow> k_fds s i \<noteq> None"
  shows "\<exists>rest. free_fds s = r # w # rest"
proof -
  define a b where "a = nat r" and "b = nat w"
  have ab: "a < b" "b < k_nofile s" "int a = r" "int b = w"
    using assms(1-3) by (simp_all add: a_def b_def)
  have 1: "filter (\<lambda>fd. k_fds s fd = None) (map int [0..<a]) = []"
    unfolding filter_empty_conv using assms(6) ab by auto
  have 2: "filter (\<lambda>fd. k_fds s fd = None) (map int [Suc a..<b]) = []"
    unfolding filter_empty_conv using assms(6) ab by auto
  have "free_fds s = filter (\<lambda>fd. k_fds s fd = None)
          (map int [0..<a] @ int a # map int [Suc a..<b] @ int b # map int [Suc b..<k_nofile s])"
    unfolding free_fds_def by (subst upt_split3 [OF ab(1,2)]) simp
  also have "\<dots> = r # w # filter (\<lambda>fd. k_fds s fd = None) (map int [Suc b..<k_nofile s])"
    unfolding filter_append filter.simps 1 2 using assms(4,5) ab(3,4) by simp
  finally show ?thesis by blast
qed

lemma open_signal_pipe_ok:
  assumes "0 \<le> r" "r < w" "w < int (k_nofile s)"
    and "k_fds s r = None" "k_fds s w = None"
    and "\<forall>i. 0 \<le> i \<and> i < w \<and> i \<noteq> r \<longrightarrow> k_fds s i \<noteq> None"
  shows "open_signal_pipe s =
     s\<lparr>calls := calls s @ [Sys_pipe2 {O_CLOEXEC, O_NONBLOCK}],
       k_fds := (k_fds s)(r \<mapsto> \<lparr>kind = Pipe_read (k_npipes s), fl = {O_CLOEXEC, O_NONBLOCK}\<rparr>,
                           w \<mapsto> \<lparr>kind = Pipe_write (k_npipes s), fl = {O_CLOEXEC, O_NONBLOCK}\<rparr>),
       k_pipes := (k_pipes s)(k_npipes s := []),
       k_npipes := Suc (k_npipes s),
       signal_pipe := (signal_pipe s)(0 := r, 1 := w)\<rparr>"
proof -
  from free_fds_lowest [OF assms] obtain rest where "free_fds s = r # w # rest" ..
  then show ?thesis by (simp add: open_signal_pipe_def pipe2_def Let_def)
qed

text \<open>A process started with its standard descriptors closed gets 0 and 1 for the pipe.\<close>

lemma open_signal_pipe_no_stdio:
  "open_signal_pipe (boot\<lparr>k_fds := Map.empty\<rparr>) =
     boot\<lparr>calls := [Sys_pipe2 {O_CLOEXEC, O_NONBLOCK}],
       k_fds := [0 \<mapsto> \<lparr>kind = Pipe_read 0, fl = {O_CLOEXEC, O_NONBLOCK}\<rparr>,
                 1 \<mapsto> \<lparr>kind = Pipe_write 0, fl = {O_CLOEXEC, O_NONBLOCK}\<rparr>],
       k_pipes := (\<lambda>_. []), k_npipes := Suc 0,
       signal_pipe := (\<lambda>_. - 1)(0 := 0, 1 := 1)\<rparr>"
  by (subst open_signal_pipe_ok [of 0 1]) (simp_all add: boot_def fun_eq_iff)

lemma open_signal_pipe_boot:
  "open_signal_pipe boot =
     boot\<lparr>calls := [Sys_pipe2 {O_CLOEXEC, O_NONBLOCK}],
       k_fds := (k_fds boot)(3 \<mapsto> \<lparr>kind = Pipe_read 0, fl = {O_CLOEXEC, O_NONBLOCK}\<rparr>,
                             4 \<mapsto> \<lparr>kind = Pipe_write 0, fl = {O_CLOEXEC, O_NONBLOCK}\<rparr>),
       k_pipes := (\<lambda>_. []), k_npipes := Suc 0,
       signal_pipe := (\<lambda>_. - 1)(0 := 3, 1 := 4)\<rparr>"
proof -
  have "0 \<le> i \<Longrightarrow> i < 4 \<Longrightarrow> i = 0 \<or> i = 1 \<or> i = 2 \<or> i = 3" for i :: int
    by arith
  then have "\<forall>i. 0 \<le> i \<and> i < 4 \<and> i \<noteq> 3 \<longrightarrow> k_fds boot i \<noteq> None"
    by (auto simp: boot_def)
  then show ?thesis
    by (subst open_signal_pipe_ok [of 3 4]) (simp_all add: boot_def fun_eq_iff)
qed

subsection \<open>Frame facts of signal_set\<close>

lemma signal_set_frame [simp]:
  "signal_pipe (snd (signal_set signo func v s)) = signal_pipe s"
  "k_fds (snd (signal_set signo func v s)) = k_fds s"
  by (auto simp: signal_set_def Let_def log_message_def sigaction_def sigprocmask_def
        split: prod.splits sum.splits)

lemma signal_set_logged:
  "1 \<le> signo \<Longrightarrow> signo \<le> SIG_MAX \<Longrightarrow> logged (snd (signal_set signo func v s)) = logged s"
  by (auto simp: signal_set_def Let_def sigaction_def sigprocmask_def
        split: prod.splits sum.splits)

lemma signal_handlers_clear_frame [simp]:
  "signal_pipe (signal_handlers_clear st s) = signal_pipe s"
  "k_fds (signal_handlers_clear st s) = k_fds s"
  "logged (signal_handlers_clear st s) = logged s"
  by (simp_all add: signal_handlers_clear_def Let_def signal_set_logged signum)

subsection \<open>signal_set: a signal number out of range\<close>

text \<open>
  Claim C4. For a signal number outside \<open>[1, SIG_MAX]\<close>, \<open>signal_set\<close> returns the null
  pointer and does nothing but log the error: the two arrays of the registration
  table, the parent-installed set and the disposition of every signal are as before,
  no system call is made, and the function returns (nothing aborts).
\<close>

theorem signal_set_out_of_range:
  assumes "signo < 1 \<or> signo > SIG_MAX"
  shows "fst (signal_set signo func v s) = NULL \<and>
         signal_handler_func (snd (signal_set signo func v s)) = signal_handler_func s \<and>
         signal_v (snd (signal_set signo func v s)) = signal_v s \<and>
         parent_sig (snd (signal_set signo func v s)) = parent_sig s \<and>
         k_disp (snd (signal_set signo func v s)) = k_disp s \<and>
         calls (snd (signal_set signo func v s)) = calls s \<and>
         snd (signal_set signo func v s) = s\<lparr>logged := logged s @ [Invalid_signal signo SIG_MAX]\<rparr>"
  using assms by (auto simp: signal_set_def log_message_def)

theorem signal_set_out_of_range_witness:
  "((18::int) < 1 \<or> 18 > SIG_MAX) \<and>
   fst (signal_set 18 (Addr 1) (Addr 2) boot) = NULL \<and>
   k_disp (snd (signal_set 18 (Addr 1) (Addr 2) boot)) = k_disp boot \<and>
   signal_handler_func (snd (signal_set 18 (Addr 1) (Addr 2) boot)) = signal_handler_func boot"
proof -
  have h: "(18::int) < 1 \<or> 18 > SIG_MAX" by (simp add: signum)
  show ?thesis using h signal_set_out_of_range [OF h, of "Addr 1" "Addr 2" boot] by simp
qed

subsection \<open>signal_set: the path where sigaction fails\<close>

text \<open>
  Claim C10. For a valid signal number for which the kernel refuses \<open>sigaction\<close>,
  \<open>signal_set\<close> returns \<open>SIG_ERR\<close>, and by then it has stored the new callback and the
  new context in the slot of the signal (null pointers for the ignore and default
  sentinels) and, for a callback that is no sentinel, has added the signal to the
  parent-installed set.
\<close>

theorem signal_set_sigaction_fails:
  assumes "1 \<le> signo" and "signo \<le> SIG_MAX"
    and "fst (sigaction signo (Some a) s0) = Inl e"
  shows "fst (signal_set signo func v s) = SIG_ERR \<and>
    signal_handler_func (snd (signal_set signo func v s)) (nat (signo - 1)) =
       (if func = SIG_IGN \<or> func = SIG_DFL then NULL else func) \<and>
    signal_v (snd (signal_set signo func v s)) (nat (signo - 1)) =
       (if func = SIG_IGN \<or> func = SIG_DFL then NULL else v) \<and>
    (func \<noteq> SIG_IGN \<and> func \<noteq> SIG_DFL \<longrightarrow>
       signo \<in> parent_sig (snd (signal_set signo func v s)))"
proof -
  from assms(1,3) have f: "signo = SIGKILL \<or> signo = SIGSTOP \<or> signo > SIGRTMAX"
    by (auto simp: sigaction_fails_iff)
  show ?thesis using assms(1,2) f
    by (auto simp: signal_set_def Let_def sigaction_def sigaddset_def sigprocmask_def signum
         split: prod.splits)
qed

theorem signal_set_sigaction_fails_witness:
  "fst (sigaction SIGKILL (Some \<lparr>sa_handler = signal_handler_addr, sa_flags = SA_RESTART\<rparr>) boot)
     = Inl EINVAL \<and>
   fst (signal_set SIGKILL (Addr 1) (Addr 2) boot) = SIG_ERR \<and>
   signal_handler_func (snd (signal_set SIGKILL (Addr 1) (Addr 2) boot)) 8 = Addr 1 \<and>
   signal_v (snd (signal_set SIGKILL (Addr 1) (Addr 2) boot)) 8 = Addr 2 \<and>
   SIGKILL \<in> parent_sig (snd (signal_set SIGKILL (Addr 1) (Addr 2) boot))"
proof -
  have h1: "1 \<le> SIGKILL" and h2: "SIGKILL \<le> SIG_MAX" by (simp_all add: signum)
  have h3: "fst (sigaction SIGKILL (Some \<lparr>sa_handler = signal_handler_addr, sa_flags = SA_RESTART\<rparr>) boot)
              = Inl EINVAL"
    by (simp add: sigaction_fails_iff)
  have n: "nat (SIGKILL - 1) = 8" by (simp add: signum)
  show ?thesis
    using h3 signal_set_sigaction_fails [OF h1 h2 h3, of "Addr 1" "Addr 2" boot]
    by (simp add: n)
qed

subsection \<open>signal_handler_destroy called twice\<close>

text \<open>
  Claim C8. After \<open>signal_handler_destroy\<close> both entries of \<open>signal_pipe\<close> are -1. A
  second call finds them so and leaves them so; its two \<^verbatim>\<open>close\<close> calls hit -1, which
  is no descriptor, so the descriptor table after the second call is the table after
  the first (nothing that is open is closed), and nothing is logged.
\<close>

theorem signal_handler_destroy_twice:
  assumes "k_fds s (- 1) = None"
  shows "signal_pipe (signal_handler_destroy s) 0 = - 1 \<and>
         signal_pipe (signal_handler_destroy s) 1 = - 1 \<and>
         signal_pipe (signal_handler_destroy (signal_handler_destroy s)) 0 = - 1 \<and>
         signal_pipe (signal_handler_destroy (signal_handler_destroy s)) 1 = - 1 \<and>
         k_fds (signal_handler_destroy (signal_handler_destroy s)) =
           k_fds (signal_handler_destroy s) \<and>
         logged (signal_handler_destroy (signal_handler_destroy s)) =
           logged (signal_handler_destroy s)"
proof -
  have p: "signal_pipe (signal_handler_destroy t) 0 = - 1 \<and>
           signal_pipe (signal_handler_destroy t) (Suc 0) = - 1" for t
    by (simp add: signal_handler_destroy_def Let_def)
  have f: "k_fds (signal_handler_destroy t) =
           (k_fds t)(signal_pipe t 1 := None, signal_pipe t 0 := None)" for t
    by (simp add: signal_handler_destroy_def Let_def)
  have l: "logged (signal_handler_destroy t) = logged t" for t
    by (simp add: signal_handler_destroy_def Let_def)
  have "k_fds (signal_handler_destroy s) (- 1) = None" using assms by (simp add: f)
  then have "k_fds (signal_handler_destroy (signal_handler_destroy s)) =
             k_fds (signal_handler_destroy s)"
    using p [of s] by (subst f) (auto simp: fun_eq_iff)
  then show ?thesis by (simp add: p l)
qed

theorem signal_handler_destroy_twice_witness:
  "k_fds (open_signal_pipe boot) (- 1) = None \<and>
   signal_pipe (signal_handler_destroy (open_signal_pipe boot)) 0 = - 1 \<and>
   signal_pipe (signal_handler_destroy (open_signal_pipe boot)) 1 = - 1 \<and>
   k_fds (signal_handler_destroy (signal_handler_destroy (open_signal_pipe boot))) =
     k_fds (signal_handler_destroy (open_signal_pipe boot))"
proof -
  have h: "k_fds (open_signal_pipe boot) (- 1) = None"
    unfolding open_signal_pipe_boot by (simp add: boot_def)
  show ?thesis using h signal_handler_destroy_twice [OF h] by simp
qed

subsection \<open>signal_pipe_close\<close>

text \<open>
  Claim C9 as stated fails for a descriptor whose number is 0: a process started with
  its standard descriptors closed gets 0 and 1 for the pipe, and \<open>signal_pipe_close 0\<close>
  then leaves descriptor 0 open although 0 is at the threshold.
\<close>

theorem signal_pipe_close_fd0_counterexample:
  "0 \<le> signal_pipe (open_signal_pipe (boot\<lparr>k_fds := Map.empty\<rparr>)) 0 \<and>
   k_fds (open_signal_pipe (boot\<lparr>k_fds := Map.empty\<rparr>))
     (signal_pipe (open_signal_pipe (boot\<lparr>k_fds := Map.empty\<rparr>)) 0) \<noteq> None \<and>
   k_fds (signal_pipe_close 0 (open_signal_pipe (boot\<lparr>k_fds := Map.empty\<rparr>)))
     (signal_pipe (open_signal_pipe (boot\<lparr>k_fds := Map.empty\<rparr>)) 0) \<noteq> None \<and>
   Sys_close (signal_pipe (open_signal_pipe (boot\<lparr>k_fds := Map.empty\<rparr>)) 0)
     \<notin> set (calls (signal_pipe_close 0 (open_signal_pipe (boot\<lparr>k_fds := Map.empty\<rparr>))))"
  by (simp add: open_signal_pipe_no_stdio signal_pipe_close_def Let_def)

text \<open>
  Claim C9, amended. \<open>signal_pipe_close min_fd\<close> calls \<^verbatim>\<open>close\<close> on each of the two
  descriptors, the read end first, exactly when its number is not 0 and is at or
  above \<open>min_fd\<close>; the descriptors closed so are the only change to the descriptor
  table.
\<close>

theorem signal_pipe_close_spec:
  "calls (signal_pipe_close min_fd s) = calls s @
     (if signal_pipe s 0 \<noteq> 0 \<and> min_fd \<le> signal_pipe s 0 then [Sys_close (signal_pipe s 0)] else []) @
     (if signal_pipe s 1 \<noteq> 0 \<and> min_fd \<le> signal_pipe s 1 then [Sys_close (signal_pipe s 1)] else []) \<and>
   k_fds (signal_pipe_close min_fd s) =
     (\<lambda>fd. if (fd = signal_pipe s 0 \<or> fd = signal_pipe s 1) \<and> fd \<noteq> 0 \<and> min_fd \<le> fd
           then None else k_fds s fd)"
  by (auto simp: signal_pipe_close_def Let_def)

theorem signal_pipe_close_spec_witness:
  "calls (signal_pipe_close 4 (open_signal_pipe boot)) =
     [Sys_pipe2 {O_CLOEXEC, O_NONBLOCK}, Sys_close 4] \<and>
   k_fds (signal_pipe_close 4 (open_signal_pipe boot)) 3 \<noteq> None \<and>
   k_fds (signal_pipe_close 4 (open_signal_pipe boot)) 4 = None"
  using signal_pipe_close_spec [of 4 "open_signal_pipe boot"]
  unfolding open_signal_pipe_boot by (simp add: boot_def)

subsection \<open>Closed forms of the loops\<close>

lemma sigaction_snd:
  "snd (sigaction sig act s) =
     s\<lparr>calls := calls s @ [Sys_sigaction sig act],
       k_disp := (case act of
                    None \<Rightarrow> k_disp s
                  | Some a \<Rightarrow> if sig < 1 \<or> sig > SIGRTMAX \<or> sig = SIGKILL \<or> sig = SIGSTOP
                              then k_disp s else (k_disp s)(sig := a))\<rparr>"
  by (auto simp: sigaction_def Let_def split: option.splits)

lemma clear_fold:
  "fold (\<lambda>i s. s\<lparr>signal_handler_func := (signal_handler_func s)(i := NULL)\<rparr>) [0..<n] s =
     s\<lparr>signal_handler_func := (\<lambda>i. if i < n then NULL else signal_handler_func s i)\<rparr>"
proof (induction n)
  case 0
  show ?case by simp
next
  case (Suc n)
  have "fold (\<lambda>i s. s\<lparr>signal_handler_func := (signal_handler_func s)(i := NULL)\<rparr>) [0..<Suc n] s =
        (\<lambda>s. s\<lparr>signal_handler_func := (signal_handler_func s)(n := NULL)\<rparr>)
          (fold (\<lambda>i s. s\<lparr>signal_handler_func := (signal_handler_func s)(i := NULL)\<rparr>) [0..<n] s)"
    by simp
  also note Suc
  finally show ?case by (simp add: fun_eq_iff)
qed

lemma clear_signal_handler_addresses_eq:
  "clear_signal_handler_addresses s =
     s\<lparr>signal_handler_func := (\<lambda>i. if i < nat SIG_MAX then NULL else signal_handler_func s i)\<rparr>"
  unfolding clear_signal_handler_addresses_def by (rule clear_fold)

lemma child_clear_step_eq:
  "child_clear_step x s =
     s\<lparr>calls := calls s @
          (if x \<in> parent_sig s then [Sys_sigaction x (Some \<lparr>sa_handler = SIG_IGN, sa_flags = 0\<rparr>)] else []),
       k_disp := (if x \<in> parent_sig s \<and> 1 \<le> x \<and> x \<le> SIGRTMAX \<and> x \<noteq> SIGKILL \<and> x \<noteq> SIGSTOP
                  then (k_disp s)(x := \<lparr>sa_handler = SIG_IGN, sa_flags = 0\<rparr>) else k_disp s)\<rparr>"
  by (simp add: child_clear_step_def sigismember_def sigaction_snd)

lemma child_clear_fold:
  "fold child_clear_step xs s =
     s\<lparr>calls := calls s @
          map (\<lambda>sig. Sys_sigaction sig (Some \<lparr>sa_handler = SIG_IGN, sa_flags = 0\<rparr>))
              (filter (\<lambda>sig. sig \<in> parent_sig s) xs),
       k_disp := (\<lambda>sig. if sig \<in> set xs \<and> sig \<in> parent_sig s \<and> 1 \<le> sig \<and> sig \<le> SIGRTMAX
                             \<and> sig \<noteq> SIGKILL \<and> sig \<noteq> SIGSTOP
                          then \<lparr>sa_handler = SIG_IGN, sa_flags = 0\<rparr> else k_disp s sig)\<rparr>"
  (is "_ = ?R xs s")
proof (induction xs arbitrary: s)
  case Nil
  show ?case by simp
next
  case (Cons x xs)
  have "fold child_clear_step (x # xs) s = ?R xs (child_clear_step x s)"
    using Cons [of "child_clear_step x s"] by (simp only: fold_simps o_apply)
  also have "\<dots> = ?R (x # xs) s"
    by (simp add: child_clear_step_eq fun_eq_iff)
  finally show ?case .
qed

lemma open_signal_pipe_frame [simp]:
  "signal_handler_func (open_signal_pipe s) = signal_handler_func s"
  "signal_v (open_signal_pipe s) = signal_v s"
  "parent_sig (open_signal_pipe s) = parent_sig s"
  "k_disp (open_signal_pipe s) = k_disp s"
  by (auto simp: open_signal_pipe_def pipe2_def Let_def log_message_def split: list.splits)


subsection \<open>What signal_set writes, for a valid signal number\<close>

lemma signal_set_fields:
  assumes "1 \<le> signo" "signo \<le> SIG_MAX"
  shows "signal_handler_func (snd (signal_set signo func v s)) =
           (signal_handler_func s)(nat (signo - 1) := (if func = SIG_IGN \<or> func = SIG_DFL then NULL else func))"
    and "signal_v (snd (signal_set signo func v s)) =
           (signal_v s)(nat (signo - 1) := (if func = SIG_IGN \<or> func = SIG_DFL then NULL else v))"
    and "parent_sig (snd (signal_set signo func v s)) =
           (if func = SIG_IGN \<or> func = SIG_DFL then parent_sig s else insert signo (parent_sig s))"
    and "k_disp (snd (signal_set signo func v s)) =
           (if signo = SIGKILL then k_disp s
            else (k_disp s)(signo := \<lparr>sa_handler = (if func = SIG_IGN \<or> func = SIG_DFL then func
                                                      else signal_handler_addr),
                                       sa_flags = SA_RESTART\<rparr>))"
    and "ign_sig (snd (signal_set signo func v s)) = ign_sig s"
    and "dfl_sig (snd (signal_set signo func v s)) = dfl_sig s"
  using assms
  by (auto simp: signal_set_def Let_def sigaction_def sigprocmask_def sigaddset_def signum
        split: prod.splits sum.splits)

lemma signal_set_kernel_frame [simp]:
  "k_nofile (snd (signal_set signo func v s)) = k_nofile s"
  "k_pipes (snd (signal_set signo func v s)) = k_pipes s"
  "k_npipes (snd (signal_set signo func v s)) = k_npipes s"
  "k_pipe_cap (snd (signal_set signo func v s)) = k_pipe_cap s"
  "invoked (snd (signal_set signo func v s)) = invoked s"
  by (auto simp: signal_set_def Let_def log_message_def sigaction_def sigprocmask_def
        split: prod.splits sum.splits)

subsection \<open>signal_handler_child_clear\<close>

lemma signal_handler_child_clear_fields:
  "signal_v (signal_handler_child_clear s) = signal_v s"
  "signal_handler_func (signal_handler_child_clear s) =
     (\<lambda>i. if i < nat SIG_MAX then NULL else signal_handler_func s i)"
  "parent_sig (signal_handler_child_clear s) = parent_sig s"
  "k_disp (signal_handler_child_clear s) =
     (\<lambda>sig. if sig \<in> parent_sig s \<and> 1 \<le> sig \<and> sig \<le> SIGRTMAX \<and> sig \<noteq> SIGKILL \<and> sig \<noteq> SIGSTOP
            then \<lparr>sa_handler = SIG_IGN, sa_flags = 0\<rparr> else k_disp s sig)"
  by (auto simp: signal_handler_child_clear_def clear_signal_handler_addresses_eq child_clear_fold fun_eq_iff)

lemma free_fds_distinct: "distinct (free_fds s)"
  by (simp add: free_fds_def distinct_map)

lemma open_signal_pipe_new:
  assumes "free_fds s = r # w # rest"
  shows "signal_pipe (open_signal_pipe s) 0 = r" "signal_pipe (open_signal_pipe s) 1 = w"
    "k_fds s r = None" "k_fds s w = None"
    "k_fds (open_signal_pipe s) r = Some \<lparr>kind = Pipe_read (k_npipes s), fl = {O_CLOEXEC, O_NONBLOCK}\<rparr>"
    "k_fds (open_signal_pipe s) w = Some \<lparr>kind = Pipe_write (k_npipes s), fl = {O_CLOEXEC, O_NONBLOCK}\<rparr>"
    "k_pipes (open_signal_pipe s) (k_npipes s) = []"
    "calls (open_signal_pipe s) = calls s @ [Sys_pipe2 {O_CLOEXEC, O_NONBLOCK}]"
proof -
  have "r \<in> set (free_fds s)" "w \<in> set (free_fds s)" using assms by simp_all
  then show "k_fds s r = None" "k_fds s w = None" by (simp_all add: free_fds_def)
  have "r \<noteq> w" using free_fds_distinct [of s] assms by auto
  then show "signal_pipe (open_signal_pipe s) 0 = r" "signal_pipe (open_signal_pipe s) 1 = w"
    "k_fds (open_signal_pipe s) r = Some \<lparr>kind = Pipe_read (k_npipes s), fl = {O_CLOEXEC, O_NONBLOCK}\<rparr>"
    "k_fds (open_signal_pipe s) w = Some \<lparr>kind = Pipe_write (k_npipes s), fl = {O_CLOEXEC, O_NONBLOCK}\<rparr>"
    "k_pipes (open_signal_pipe s) (k_npipes s) = []"
    "calls (open_signal_pipe s) = calls s @ [Sys_pipe2 {O_CLOEXEC, O_NONBLOCK}]"
    using assms by (simp_all add: open_signal_pipe_def pipe2_def Let_def)
qed


lemma signal_handler_child_clear_pipe:
  assumes "free_fds s = r # w # rest"
  shows "signal_pipe (signal_handler_child_clear s) 0 = r \<and>
     signal_pipe (signal_handler_child_clear s) 1 = w \<and>
     k_fds s r = None \<and> k_fds s w = None \<and>
     k_fds (signal_handler_child_clear s) r =
       Some \<lparr>kind = Pipe_read (k_npipes s), fl = {O_CLOEXEC, O_NONBLOCK}\<rparr> \<and>
     k_fds (signal_handler_child_clear s) w =
       Some \<lparr>kind = Pipe_write (k_npipes s), fl = {O_CLOEXEC, O_NONBLOCK}\<rparr> \<and>
     k_pipes (signal_handler_child_clear s) (k_npipes s) = []"
proof -
  define m where "m = fold child_clear_step [1..SIGRTMAX] s"
  have m: "free_fds m = r # w # rest" "k_npipes m = k_npipes s" "k_fds m = k_fds s"
    using assms by (simp_all add: m_def child_clear_fold free_fds_def)
  show ?thesis
    using open_signal_pipe_new [OF m(1)]
    by (simp add: signal_handler_child_clear_def clear_signal_handler_addresses_eq
          m_def [symmetric] m(2,3))
qed

text \<open>
  Claim C7, amended. \<open>signal_handler_child_clear\<close> sets to ignore the disposition of
  every signal of the parent-installed set that the kernel lets a process change
  (every one but SIGKILL and SIGSTOP), and leaves every callback of the registration
  table null; the stored contexts are as they were before the call. When two
  descriptor numbers are free, \<open>signal_pipe\<close> then holds the two ends, read end and
  write end, of a new empty pipe opened non-blocking and close-on-exec, on numbers
  that were not open before.
\<close>

theorem signal_handler_child_clear_spec:
  "(\<forall>sig. sig \<in> parent_sig s \<and> 1 \<le> sig \<and> sig \<le> SIGRTMAX \<and> sig \<noteq> SIGKILL \<and> sig \<noteq> SIGSTOP \<longrightarrow>
       sa_handler (k_disp (signal_handler_child_clear s) sig) = SIG_IGN) \<and>
   (\<forall>i < nat SIG_MAX. signal_handler_func (signal_handler_child_clear s) i = NULL) \<and>
   signal_v (signal_handler_child_clear s) = signal_v s \<and>
   (\<forall>r w rest. free_fds s = r # w # rest \<longrightarrow>
      signal_pipe (signal_handler_child_clear s) 0 = r \<and>
      signal_pipe (signal_handler_child_clear s) 1 = w \<and>
      k_fds s r = None \<and> k_fds s w = None \<and>
      k_fds (signal_handler_child_clear s) r =
        Some \<lparr>kind = Pipe_read (k_npipes s), fl = {O_CLOEXEC, O_NONBLOCK}\<rparr> \<and>
      k_fds (signal_handler_child_clear s) w =
        Some \<lparr>kind = Pipe_write (k_npipes s), fl = {O_CLOEXEC, O_NONBLOCK}\<rparr> \<and>
      k_pipes (signal_handler_child_clear s) (k_npipes s) = [])"
  using signal_handler_child_clear_pipe [of s]
  by (simp add: signal_handler_child_clear_fields)

text \<open>
  Claim C7 as stated fails: after \<open>signal_set SIGHUP\<close> with callback \<open>Addr 1\<close> and
  context \<open>Addr 2\<close>, and a \<open>signal_set SIGKILL\<close> that the kernel refuses, the child
  clear leaves the context \<open>Addr 2\<close> in the slot of SIGHUP (only the callbacks are
  cleared), and SIGKILL, which is in the parent-installed set, keeps its default
  disposition.
\<close>

theorem signal_handler_child_clear_counterexample:
  "signal_v (signal_handler_child_clear
      (snd (signal_set SIGKILL (Addr 3) (Addr 4) (snd (signal_set SIGHUP (Addr 1) (Addr 2) boot)))))
      (nat (SIGHUP - 1)) = Addr 2 \<and>
   SIGKILL \<in> parent_sig (snd (signal_set SIGKILL (Addr 3) (Addr 4) (snd (signal_set SIGHUP (Addr 1) (Addr 2) boot)))) \<and>
   sa_handler (k_disp (signal_handler_child_clear
      (snd (signal_set SIGKILL (Addr 3) (Addr 4) (snd (signal_set SIGHUP (Addr 1) (Addr 2) boot)))))
      SIGKILL) = SIG_DFL"
  by (simp add: signal_handler_child_clear_fields signal_set_fields signum boot_def)

theorem signal_handler_child_clear_spec_witness:
  "SIGHUP \<in> parent_sig (snd (signal_set SIGHUP (Addr 1) (Addr 2) boot)) \<and>
   sa_handler (k_disp (snd (signal_set SIGHUP (Addr 1) (Addr 2) boot)) SIGHUP) = signal_handler_addr \<and>
   signal_handler_func (snd (signal_set SIGHUP (Addr 1) (Addr 2) boot)) 0 = Addr 1 \<and>
   sa_handler (k_disp (signal_handler_child_clear (snd (signal_set SIGHUP (Addr 1) (Addr 2) boot))) SIGHUP) = SIG_IGN \<and>
   signal_handler_func (signal_handler_child_clear (snd (signal_set SIGHUP (Addr 1) (Addr 2) boot))) 0 = NULL \<and>
   (\<exists>rest. free_fds (snd (signal_set SIGHUP (Addr 1) (Addr 2) boot)) = 3 # 4 # rest) \<and>
   signal_pipe (signal_handler_child_clear (snd (signal_set SIGHUP (Addr 1) (Addr 2) boot))) 0 = 3 \<and>
   signal_pipe (signal_handler_child_clear (snd (signal_set SIGHUP (Addr 1) (Addr 2) boot))) 1 = 4"
proof -
  let ?s = "snd (signal_set SIGHUP (Addr 1) (Addr 2) boot)"
  have v: "1 \<le> SIGHUP" "SIGHUP \<le> SIG_MAX" by (simp_all add: signum)
  have p: "SIGHUP \<in> parent_sig ?s \<and> 1 \<le> SIGHUP \<and> SIGHUP \<le> SIGRTMAX \<and> SIGHUP \<noteq> SIGKILL \<and> SIGHUP \<noteq> SIGSTOP"
    by (simp add: signal_set_fields [OF v]) (simp add: signum)
  have "0 \<le> i \<Longrightarrow> i < 4 \<Longrightarrow> i = 0 \<or> i = 1 \<or> i = 2 \<or> i = 3" for i :: int
    by arith
  then have "\<forall>i. 0 \<le> i \<and> i < 4 \<and> i \<noteq> 3 \<longrightarrow> k_fds ?s i \<noteq> None"
    by (auto simp: boot_def)
  then have "\<exists>rest. free_fds ?s = 3 # 4 # rest"
    by (intro free_fds_lowest) (simp_all add: boot_def)
  then obtain rest where f: "free_fds ?s = 3 # 4 # rest" ..
  have d: "sa_handler (k_disp ?s SIGHUP) = signal_handler_addr" "signal_handler_func ?s 0 = Addr 1"
    by (simp_all add: signal_set_fields [OF v]) (simp_all add: signum)
  have z: "(0::nat) < nat SIG_MAX" by (simp add: signum)
  show ?thesis
    using signal_handler_child_clear_spec [of ?s] p f d z by auto
qed

subsection \<open>signal_handler_init\<close>

lemma init_sset_eq:
  "init_sset = {1..SIGRTMAX} - {SIGILL, SIGFPE, SIGSEGV, SIGBUS, SIGKILL, SIGSTOP, SIGCANCEL, SIGSETXID}"
  by (auto simp: init_sset_def sigfillset_def sigdelset_def signum)

text \<open>The query \<^verbatim>\<open>sigaction(sig, NULL, &oact)\<close> succeeds for every signal of the loops.\<close>

lemma sigaction_query:
  "1 \<le> sig \<Longrightarrow> sig \<le> SIGRTMAX \<Longrightarrow>
     sigaction sig None s = (Inr (k_disp s sig), s\<lparr>calls := calls s @ [Sys_sigaction sig None]\<rparr>)"
  by (simp add: sigaction_def Let_def)

lemma sigaction_change:
  "1 \<le> sig \<Longrightarrow> sig \<le> SIGRTMAX \<Longrightarrow> sig \<noteq> SIGKILL \<Longrightarrow> sig \<noteq> SIGSTOP \<Longrightarrow>
     sigaction sig (Some a) s =
       (Inr (k_disp s sig),
        s\<lparr>calls := calls s @ [Sys_sigaction sig (Some a)], k_disp := (k_disp s)(sig := a)\<rparr>)"
  by (simp add: sigaction_def Let_def)

lemma init_step_snd:
  "snd (init_step x (oact, s)) =
     s\<lparr>calls := calls s @ init_calls s x,
       ign_sig := (if x \<in> init_sset \<and> sa_handler (k_disp s x) = SIG_IGN
                   then insert x (ign_sig s) else ign_sig s),
       dfl_sig := (if x \<in> init_sset \<and> sa_handler (k_disp s x) \<noteq> SIG_IGN
                   then insert x (dfl_sig s) else dfl_sig s),
       k_disp := (if x \<in> init_sset \<and> sa_handler (k_disp s x) \<noteq> SIG_IGN
                  then (k_disp s)(x := \<lparr>sa_handler = SIG_IGN, sa_flags = 0\<rparr>) else k_disp s)\<rparr>"
proof (cases "x \<in> init_sset")
  case False
  then show ?thesis by (simp add: init_step_def sigismember_def init_calls_def)
next
  case True
  then have r: "1 \<le> x" "x \<le> SIGRTMAX" "x \<noteq> SIGKILL" "x \<noteq> SIGSTOP"
    by (auto simp: init_sset_eq)
  show ?thesis using True r
    by (simp add: init_step_def sigismember_def init_calls_def sigaction_query sigaction_change
          sigaddset_def)
qed


lemma init_step_pair: "init_step x (oact, s) = (fst (init_step x (oact, s)), snd (init_step x (oact, s)))"
  by simp

lemma init_fold:
  assumes "distinct xs"
  shows "snd (fold init_step xs (oact, s)) =
     s\<lparr>calls := calls s @ concat (map (init_calls s) xs),
       ign_sig := ign_sig s \<union> {x \<in> set xs \<inter> init_sset. sa_handler (k_disp s x) = SIG_IGN},
       dfl_sig := dfl_sig s \<union> {x \<in> set xs \<inter> init_sset. sa_handler (k_disp s x) \<noteq> SIG_IGN},
       k_disp := (\<lambda>x. if x \<in> set xs \<inter> init_sset \<and> sa_handler (k_disp s x) \<noteq> SIG_IGN
                       then \<lparr>sa_handler = SIG_IGN, sa_flags = 0\<rparr> else k_disp s x)\<rparr>"
  (is "_ = ?R xs s")
  using assms
proof (induction xs arbitrary: oact s)
  case Nil
  show ?case by simp
next
  case (Cons x xs)
  define s1 where "s1 = snd (init_step x (oact, s))"
  have k: "k_disp s1 y = k_disp s y" if "y \<in> set xs" for y
    using that Cons.prems by (auto simp: s1_def init_step_snd)
  have c: "map (init_calls s1) xs = map (init_calls s) xs"
    by (rule map_cong) (simp_all add: init_calls_def k)
  have "snd (fold init_step (x # xs) (oact, s)) = snd (fold init_step xs (fst (init_step x (oact, s)), s1))"
    unfolding s1_def by (simp only: fold_simps o_apply prod.collapse)
  also have "\<dots> = ?R xs s1"
    using Cons.prems by (intro Cons.IH) simp
  also have "\<dots> = ?R (x # xs) s"
    unfolding c using Cons.prems
    by (intro state.equality) (auto simp: s1_def init_step_snd fun_eq_iff)
  finally show ?case .
qed


lemma open_signal_pipe_sets [simp]:
  "ign_sig (open_signal_pipe s) = ign_sig s"
  "dfl_sig (open_signal_pipe s) = dfl_sig s"
  by (auto simp: open_signal_pipe_def pipe2_def Let_def log_message_def split: list.splits)

lemma signal_handler_init_fields:
  "ign_sig (signal_handler_init s) = {x \<in> init_sset. sa_handler (k_disp s x) = SIG_IGN}"
  "dfl_sig (signal_handler_init s) = {x \<in> init_sset. sa_handler (k_disp s x) \<noteq> SIG_IGN}"
  "parent_sig (signal_handler_init s) = {}"
  "k_disp (signal_handler_init s) =
     (\<lambda>x. if x \<in> init_sset \<and> sa_handler (k_disp s x) \<noteq> SIG_IGN
          then \<lparr>sa_handler = SIG_IGN, sa_flags = 0\<rparr> else k_disp s x)"
  "signal_handler_func (signal_handler_init s) =
     (\<lambda>i. if i < nat SIG_MAX then NULL else signal_handler_func s i)"
  "signal_v (signal_handler_init s) = signal_v s"
proof -
  have sub: "x \<in> init_sset \<Longrightarrow> x \<in> set [1..SIGRTMAX]" for x
    by (simp add: init_sset_eq)
  show "ign_sig (signal_handler_init s) = {x \<in> init_sset. sa_handler (k_disp s x) = SIG_IGN}"
    "dfl_sig (signal_handler_init s) = {x \<in> init_sset. sa_handler (k_disp s x) \<noteq> SIG_IGN}"
    "parent_sig (signal_handler_init s) = {}"
    "k_disp (signal_handler_init s) =
     (\<lambda>x. if x \<in> init_sset \<and> sa_handler (k_disp s x) \<noteq> SIG_IGN
          then \<lparr>sa_handler = SIG_IGN, sa_flags = 0\<rparr> else k_disp s x)"
    "signal_handler_func (signal_handler_init s) =
     (\<lambda>i. if i < nat SIG_MAX then NULL else signal_handler_func s i)"
    "signal_v (signal_handler_init s) = signal_v s"
    using sub
    by (auto simp: signal_handler_init_def Let_def init_fold clear_signal_handler_addresses_eq
          sigemptyset_def fun_eq_iff)
qed

text \<open>
  Claim C5 as stated fails for the two signals that \<^verbatim>\<open>sigfillset\<close> leaves out: at
  process start signal 32 has the default disposition and is none of the six
  signals the claim excepts, yet after \<open>signal_handler_init\<close> it is in neither set and
  its disposition is still the default one.
\<close>

theorem signal_handler_init_reserved_counterexample:
  "1 \<le> SIGCANCEL \<and> SIGCANCEL \<le> SIGRTMAX \<and>
   SIGCANCEL \<notin> {SIGILL, SIGFPE, SIGSEGV, SIGBUS, SIGKILL, SIGSTOP} \<and>
   sa_handler (k_disp boot SIGCANCEL) \<noteq> SIG_IGN \<and>
   SIGCANCEL \<notin> ign_sig (signal_handler_init boot) \<and>
   SIGCANCEL \<notin> dfl_sig (signal_handler_init boot) \<and>
   sa_handler (k_disp (signal_handler_init boot) SIGCANCEL) = SIG_DFL"
proof -
  have n: "SIGCANCEL \<notin> init_sset" by (simp add: init_sset_eq)
  have d: "sa_handler (k_disp boot SIGCANCEL) = SIG_DFL" by (simp add: boot_def)
  show ?thesis
    unfolding signal_handler_init_fields using n d by (simp add: signum)
qed

text \<open>
  Claim C5, amended. \<open>signal_handler_init\<close> treats every signal number from 1 to
  \<open>SIGRTMAX\<close> so: the six signals SIGILL, SIGFPE, SIGSEGV, SIGBUS, SIGKILL and SIGSTOP
  and the two signals that \<^verbatim>\<open>sigfillset\<close> leaves out (32 and 33, kept by the C library)
  are put in neither set and keep their disposition; any other signal whose
  disposition was ignore is put in \<open>ign_sig\<close> and keeps its disposition; any other
  signal is put in \<open>dfl_sig\<close> and its disposition is set to ignore. The two sets are
  disjoint and hold no other numbers.
\<close>

theorem signal_handler_init_spec:
  "(\<forall>sig. 1 \<le> sig \<and> sig \<le> SIGRTMAX \<longrightarrow>
      (if sig \<in> {SIGILL, SIGFPE, SIGSEGV, SIGBUS, SIGKILL, SIGSTOP, SIGCANCEL, SIGSETXID}
       then sig \<notin> ign_sig (signal_handler_init s) \<and> sig \<notin> dfl_sig (signal_handler_init s) \<and>
            k_disp (signal_handler_init s) sig = k_disp s sig
       else if sa_handler (k_disp s sig) = SIG_IGN
       then sig \<in> ign_sig (signal_handler_init s) \<and> k_disp (signal_handler_init s) sig = k_disp s sig
       else sig \<in> dfl_sig (signal_handler_init s) \<and>
            sa_handler (k_disp (signal_handler_init s) sig) = SIG_IGN)) \<and>
   ign_sig (signal_handler_init s) \<inter> dfl_sig (signal_handler_init s) = {} \<and>
   ign_sig (signal_handler_init s) \<union> dfl_sig (signal_handler_init s) \<subseteq> {1..SIGRTMAX}"
  by (auto simp: signal_handler_init_fields init_sset_eq)


theorem signal_handler_init_spec_witness:
  "(1 \<le> SIGHUP \<and> SIGHUP \<le> SIGRTMAX) \<and> (1 \<le> SIGTERM \<and> SIGTERM \<le> SIGRTMAX) \<and>
   (1 \<le> SIGKILL \<and> SIGKILL \<le> SIGRTMAX) \<and>
   SIGHUP \<in> ign_sig (signal_handler_init (boot\<lparr>k_disp := (k_disp boot)(SIGHUP := \<lparr>sa_handler = SIG_IGN, sa_flags = 0\<rparr>)\<rparr>)) \<and>
   SIGTERM \<in> dfl_sig (signal_handler_init (boot\<lparr>k_disp := (k_disp boot)(SIGHUP := \<lparr>sa_handler = SIG_IGN, sa_flags = 0\<rparr>)\<rparr>)) \<and>
   sa_handler (k_disp (signal_handler_init (boot\<lparr>k_disp := (k_disp boot)(SIGHUP := \<lparr>sa_handler = SIG_IGN, sa_flags = 0\<rparr>)\<rparr>)) SIGTERM) = SIG_IGN \<and>
   SIGKILL \<notin> dfl_sig (signal_handler_init (boot\<lparr>k_disp := (k_disp boot)(SIGHUP := \<lparr>sa_handler = SIG_IGN, sa_flags = 0\<rparr>)\<rparr>)) \<and>
   sa_handler (k_disp (signal_handler_init (boot\<lparr>k_disp := (k_disp boot)(SIGHUP := \<lparr>sa_handler = SIG_IGN, sa_flags = 0\<rparr>)\<rparr>)) SIGKILL) = SIG_DFL"
proof -
  let ?s = "boot\<lparr>k_disp := (k_disp boot)(SIGHUP := \<lparr>sa_handler = SIG_IGN, sa_flags = 0\<rparr>)\<rparr>"
  have r: "1 \<le> SIGHUP \<and> SIGHUP \<le> SIGRTMAX" "1 \<le> SIGTERM \<and> SIGTERM \<le> SIGRTMAX"
    "1 \<le> SIGKILL \<and> SIGKILL \<le> SIGRTMAX"
    by (simp_all add: signum)
  have m: "SIGHUP \<notin> {SIGILL, SIGFPE, SIGSEGV, SIGBUS, SIGKILL, SIGSTOP, SIGCANCEL, SIGSETXID}"
    "SIGTERM \<notin> {SIGILL, SIGFPE, SIGSEGV, SIGBUS, SIGKILL, SIGSTOP, SIGCANCEL, SIGSETXID}"
    "SIGKILL \<in> {SIGILL, SIGFPE, SIGSEGV, SIGBUS, SIGKILL, SIGSTOP, SIGCANCEL, SIGSETXID}"
    by (simp_all add: signum)
  have d: "sa_handler (k_disp ?s SIGHUP) = SIG_IGN" "sa_handler (k_disp ?s SIGTERM) = SIG_DFL"
    "sa_handler (k_disp ?s SIGKILL) = SIG_DFL"
    by (simp_all add: boot_def signum)
  from signal_handler_init_spec [of ?s]
  have a: "\<And>sig. 1 \<le> sig \<and> sig \<le> SIGRTMAX \<Longrightarrow>
      (if sig \<in> {SIGILL, SIGFPE, SIGSEGV, SIGBUS, SIGKILL, SIGSTOP, SIGCANCEL, SIGSETXID}
       then sig \<notin> ign_sig (signal_handler_init ?s) \<and> sig \<notin> dfl_sig (signal_handler_init ?s) \<and>
            k_disp (signal_handler_init ?s) sig = k_disp ?s sig
       else if sa_handler (k_disp ?s sig) = SIG_IGN
       then sig \<in> ign_sig (signal_handler_init ?s) \<and> k_disp (signal_handler_init ?s) sig = k_disp ?s sig
       else sig \<in> dfl_sig (signal_handler_init ?s) \<and>
            sa_handler (k_disp (signal_handler_init ?s) sig) = SIG_IGN)"
    by blast
  show ?thesis
    using a [OF r(1)] a [OF r(2)] a [OF r(3)] r
    unfolding if_P [OF m(3)] if_not_P [OF m(1)] if_not_P [OF m(2)] d
    by (simp add: boot_def) (simp add: signum)
qed

subsection \<open>signal_handler_script\<close>

lemma signal_set_sets [simp]:
  "ign_sig (snd (signal_set signo func v s)) = ign_sig s"
  "dfl_sig (snd (signal_set signo func v s)) = dfl_sig s"
  by (auto simp: signal_set_def Let_def log_message_def sigaction_def sigprocmask_def
        split: prod.splits sum.splits)

lemma run_calls_sets [simp]:
  "ign_sig (run_calls cs s) = ign_sig s"
  "dfl_sig (run_calls cs s) = dfl_sig s"
  by (induction cs s rule: run_calls.induct) (simp_all add: signal_ignore_def)

lemma script_step_eq:
  "script_step x s =
     s\<lparr>calls := calls s @
          (if x \<in> ign_sig s then [Sys_sigaction x (Some \<lparr>sa_handler = SIG_IGN, sa_flags = 0\<rparr>)]
           else if x \<in> dfl_sig s then [Sys_sigaction x (Some \<lparr>sa_handler = SIG_DFL, sa_flags = 0\<rparr>)]
           else []),
       k_disp := (if 1 \<le> x \<and> x \<le> SIGRTMAX \<and> x \<noteq> SIGKILL \<and> x \<noteq> SIGSTOP
                  then (if x \<in> ign_sig s then (k_disp s)(x := \<lparr>sa_handler = SIG_IGN, sa_flags = 0\<rparr>)
                        else if x \<in> dfl_sig s then (k_disp s)(x := \<lparr>sa_handler = SIG_DFL, sa_flags = 0\<rparr>)
                        else k_disp s)
                  else k_disp s)\<rparr>"
  by (simp add: script_step_def sigismember_def sigaction_snd)

lemma script_step_sets:
  "ign_sig (script_step x s) = ign_sig s" "dfl_sig (script_step x s) = dfl_sig s"
  by (simp_all add: script_step_eq)

lemma script_fold:
  "fold script_step xs s =
     s\<lparr>calls := calls s @ concat (map (\<lambda>x.
          if x \<in> ign_sig s then [Sys_sigaction x (Some \<lparr>sa_handler = SIG_IGN, sa_flags = 0\<rparr>)]
          else if x \<in> dfl_sig s then [Sys_sigaction x (Some \<lparr>sa_handler = SIG_DFL, sa_flags = 0\<rparr>)]
          else []) xs),
       k_disp := (\<lambda>x. if x \<in> set xs \<and> 1 \<le> x \<and> x \<le> SIGRTMAX \<and> x \<noteq> SIGKILL \<and> x \<noteq> SIGSTOP
                       then (if x \<in> ign_sig s then \<lparr>sa_handler = SIG_IGN, sa_flags = 0\<rparr>
                             else if x \<in> dfl_sig s then \<lparr>sa_handler = SIG_DFL, sa_flags = 0\<rparr>
                             else k_disp s x)
                       else k_disp s x)\<rparr>"
  (is "_ = ?R xs s")
proof (induction xs arbitrary: s)
  case Nil
  show ?case by simp
next
  case (Cons x xs)
  have "fold script_step (x # xs) s = ?R xs (script_step x s)"
    using Cons [of "script_step x s"] by (simp only: fold_simps o_apply)
  also have "\<dots> = ?R (x # xs) s"
    unfolding script_step_sets
    by (intro state.equality) (auto simp: script_step_eq fun_eq_iff)
  finally show ?case .
qed

lemma signal_handler_script_disp:
  "k_disp (signal_handler_script s) =
     (\<lambda>x. if 1 \<le> x \<and> x \<le> SIGRTMAX \<and> x \<noteq> SIGKILL \<and> x \<noteq> SIGSTOP
           then (if x \<in> ign_sig s then \<lparr>sa_handler = SIG_IGN, sa_flags = 0\<rparr>
                 else if x \<in> dfl_sig s then \<lparr>sa_handler = SIG_DFL, sa_flags = 0\<rparr>
                 else k_disp s x)
           else k_disp s x)"
  by (auto simp: signal_handler_script_def script_fold fun_eq_iff)

text \<open>
  Claim C6. After \<open>signal_handler_init\<close> and then any calls of \<open>signal_set\<close> and
  \<open>signal_ignore\<close>, \<open>signal_handler_script\<close> leaves every signal of the set \<open>ign_sig\<close>
  that the initialisation recorded with the disposition ignore and every signal of
  the set \<open>dfl_sig\<close> with the disposition default. So a captured signal whose
  disposition was ignore or default when the initialisation ran has that
  disposition again.
\<close>

theorem signal_handler_script_restores:
  "(\<forall>sig \<in> ign_sig (signal_handler_init s).
      sa_handler (k_disp (signal_handler_script (run_calls cs (signal_handler_init s))) sig) = SIG_IGN) \<and>
   (\<forall>sig \<in> dfl_sig (signal_handler_init s).
      sa_handler (k_disp (signal_handler_script (run_calls cs (signal_handler_init s))) sig) = SIG_DFL) \<and>
   (\<forall>sig \<in> ign_sig (signal_handler_init s) \<union> dfl_sig (signal_handler_init s).
      sa_handler (k_disp s sig) = SIG_IGN \<or> sa_handler (k_disp s sig) = SIG_DFL \<longrightarrow>
      sa_handler (k_disp (signal_handler_script (run_calls cs (signal_handler_init s))) sig) =
        sa_handler (k_disp s sig))"
  by (auto simp: signal_handler_script_disp signal_handler_init_fields(1,2) init_sset_eq)


theorem signal_handler_script_restores_witness:
  "SIGHUP \<in> ign_sig (signal_handler_init (boot\<lparr>k_disp := (k_disp boot)(SIGHUP := \<lparr>sa_handler = SIG_IGN, sa_flags = 0\<rparr>)\<rparr>)) \<and>
   SIGTERM \<in> dfl_sig (signal_handler_init (boot\<lparr>k_disp := (k_disp boot)(SIGHUP := \<lparr>sa_handler = SIG_IGN, sa_flags = 0\<rparr>)\<rparr>)) \<and>
   sa_handler (k_disp (run_calls [Call_signal_set SIGTERM (Addr 1) (Addr 2), Call_signal_set SIGHUP (Addr 3) NULL]
      (signal_handler_init (boot\<lparr>k_disp := (k_disp boot)(SIGHUP := \<lparr>sa_handler = SIG_IGN, sa_flags = 0\<rparr>)\<rparr>))) SIGHUP)
     = signal_handler_addr \<and>
   sa_handler (k_disp (signal_handler_script (run_calls [Call_signal_set SIGTERM (Addr 1) (Addr 2), Call_signal_set SIGHUP (Addr 3) NULL]
      (signal_handler_init (boot\<lparr>k_disp := (k_disp boot)(SIGHUP := \<lparr>sa_handler = SIG_IGN, sa_flags = 0\<rparr>)\<rparr>)))) SIGHUP)
     = SIG_IGN \<and>
   sa_handler (k_disp (signal_handler_script (run_calls [Call_signal_set SIGTERM (Addr 1) (Addr 2), Call_signal_set SIGHUP (Addr 3) NULL]
      (signal_handler_init (boot\<lparr>k_disp := (k_disp boot)(SIGHUP := \<lparr>sa_handler = SIG_IGN, sa_flags = 0\<rparr>)\<rparr>)))) SIGTERM)
     = SIG_DFL"
proof -
  let ?s = "boot\<lparr>k_disp := (k_disp boot)(SIGHUP := \<lparr>sa_handler = SIG_IGN, sa_flags = 0\<rparr>)\<rparr>"
  let ?cs = "[Call_signal_set SIGTERM (Addr 1) (Addr 2), Call_signal_set SIGHUP (Addr 3) NULL]"
  have m: "SIGHUP \<in> init_sset" "SIGTERM \<in> init_sset"
    by (simp_all add: init_sset_eq signum)
  have d: "sa_handler (k_disp ?s SIGHUP) = SIG_IGN" "sa_handler (k_disp ?s SIGTERM) \<noteq> SIG_IGN"
    by (simp_all add: boot_def signum)
  have i: "SIGHUP \<in> ign_sig (signal_handler_init ?s)" "SIGTERM \<in> dfl_sig (signal_handler_init ?s)"
    unfolding signal_handler_init_fields using m d by simp_all
  have v: "1 \<le> SIGHUP" "SIGHUP \<le> SIG_MAX" "SIGHUP \<noteq> SIGKILL" by (simp_all add: signum)
  have b: "sa_handler (k_disp (run_calls ?cs (signal_handler_init ?s)) SIGHUP) = signal_handler_addr"
    by (simp add: signal_set_fields(4) [OF v(1,2)] v(3))
  show ?thesis
    using signal_handler_script_restores [of ?s ?cs] i b by blast
qed

subsection \<open>Delivery and dispatch\<close>

lemma deliver_writes:
  assumes "k_fds s (signal_pipe s 1) = Some e" "kind e = Pipe_write p"
    and "length (k_pipes s p) + k \<le> k_pipe_cap s"
  shows "deliver n k s =
     Some (s\<lparr>calls := calls s @ replicate k (Sys_write (signal_pipe s 1) n),
             k_pipes := (k_pipes s)(p := k_pipes s p @ replicate k n)\<rparr>)"
  using assms
proof (induction k arbitrary: s)
  case 0
  show ?case by simp
next
  case (Suc k)
  let ?s1 = "s\<lparr>calls := calls s @ [Sys_write (signal_pipe s 1) n],
               k_pipes := (k_pipes s)(p := k_pipes s p @ [n])\<rparr>"
  have h: "signal_handler n s = Some ?s1"
    using Suc.prems by (simp add: signal_handler_def write_fd_def Let_def)
  let ?t = "?s1\<lparr>calls := calls ?s1 @ replicate k (Sys_write (signal_pipe ?s1 1) n),
             k_pipes := (k_pipes ?s1)(p := k_pipes ?s1 p @ replicate k n)\<rparr>"
  have ih: "deliver n k ?s1 = Some ?t"
    using Suc.prems by (intro Suc.IH) simp_all
  have eq: "?t = s\<lparr>calls := calls s @ replicate (Suc k) (Sys_write (signal_pipe s 1) n),
             k_pipes := (k_pipes s)(p := k_pipes s p @ replicate (Suc k) n)\<rparr>"
    by (intro state.equality) (simp_all add: fun_eq_iff)
  show ?case
    by (simp only: deliver.simps h option.case ih eq)
qed

lemma signal_run_callback_drains:
  assumes "k_fds s (signal_pipe s 0) = Some e" "kind e = Pipe_read p" "O_NONBLOCK \<in> fl e"
    and "k_pipes s p = xs"
  shows "\<exists>s'. signal_run_callback s = Some s' \<and>
           invoked s' = invoked s @ spec_dispatch s xs \<and> pending s' = []"
  using assms
proof (induction xs arbitrary: s)
  case Nil
  then show ?case
    by (subst signal_run_callback.simps) (simp add: read_fd_def Let_def pending_def spec_dispatch_def)
next
  case (Cons x xs)
  let ?s1 = "s\<lparr>calls := calls s @ [Sys_read (signal_pipe s 0)], k_pipes := (k_pipes s)(p := xs)\<rparr>"
  let ?s2 = "run_callback x ?s1"
  have rd: "read_fd (signal_pipe s 0) s = (Transferred x, ?s1)"
    using Cons.prems by (simp add: read_fd_def Let_def)
  have fr: "signal_pipe ?s2 = signal_pipe s" "k_fds ?s2 = k_fds s" "k_pipes ?s2 p = xs"
    "signal_handler_func ?s2 = signal_handler_func s" "signal_v ?s2 = signal_v s"
    by (simp_all add: run_callback_def)
  have "\<exists>s'. signal_run_callback ?s2 = Some s' \<and>
           invoked s' = invoked ?s2 @ spec_dispatch ?s2 xs \<and> pending s' = []"
    using Cons.prems(1-3) by (intro Cons.IH [of ?s2]) (simp_all only: fr)
  then obtain s' where s': "signal_run_callback ?s2 = Some s'"
    "invoked s' = invoked ?s2 @ spec_dispatch ?s2 xs" "pending s' = []" by blast
  have d: "spec_dispatch ?s2 xs = spec_dispatch s xs"
    by (simp only: spec_dispatch_def fr)
  have i: "invoked ?s2 @ spec_dispatch s xs = invoked s @ spec_dispatch s (x # xs)"
    by (simp add: run_callback_def spec_dispatch_def)
  have "signal_run_callback s = signal_run_callback ?s2"
    by (subst signal_run_callback.simps) (simp add: rd)
  then show ?case using s' d i by simp
qed


lemma deliver_Suc_last:
  "deliver n (Suc k) s = Option.bind (deliver n k s) (signal_handler n)"
proof (induction k arbitrary: s)
  case 0
  show ?case by (simp split: option.splits)
next
  case (Suc k)
  show ?case
  proof (cases "signal_handler n s")
    case None
    then show ?thesis by simp
  next
    case (Some s')
    have "deliver n (Suc (Suc k)) s = deliver n (Suc k) s'"
      using Some by simp
    also have "\<dots> = Option.bind (deliver n k s') (signal_handler n)"
      by (rule Suc.IH)
    also have "deliver n k s' = deliver n (Suc k) s"
      using Some by simp
    finally show ?thesis .
  qed
qed

lemma signal_handler_full:
  assumes "k_fds s (signal_pipe s 1) = Some e" "kind e = Pipe_write p" "O_NONBLOCK \<in> fl e"
    and "k_pipe_cap s \<le> length (k_pipes s p)"
  shows "signal_handler n s =
     Some (s\<lparr>calls := calls s @ [Sys_write (signal_pipe s 1) n],
             logged := logged s @ [Bug_write EAGAIN]\<rparr>)"
  using assms by (simp add: signal_handler_def write_fd_def Let_def log_message_def)

lemma deliver_overflow:
  assumes "1 \<le> n" and "n \<le> SIG_MAX" and "signal_handler_func s (nat (n - 1)) \<noteq> NULL"
    and "k_fds s (signal_pipe s 0) = Some er" and "kind er = Pipe_read p" and "O_NONBLOCK \<in> fl er"
    and "k_fds s (signal_pipe s 1) = Some ew" and "kind ew = Pipe_write p" and "O_NONBLOCK \<in> fl ew"
    and "k_pipes s p = []" and "k_pipe_cap s = c"
  shows "map_option (length \<circ> invoked) (Option.bind (deliver n (Suc c) s) signal_run_callback) =
           Some (length (invoked s) + c)"
proof -
  let ?s1 = "s\<lparr>calls := calls s @ replicate c (Sys_write (signal_pipe s 1) n),
               k_pipes := (k_pipes s)(p := k_pipes s p @ replicate c n)\<rparr>"
  let ?s2 = "?s1\<lparr>calls := calls ?s1 @ [Sys_write (signal_pipe ?s1 1) n],
               logged := logged ?s1 @ [Bug_write EAGAIN]\<rparr>"
  have d1: "deliver n c s = Some ?s1"
    using assms(7,8,10,11) by (intro deliver_writes) simp_all
  have h: "signal_handler n ?s1 = Some ?s2"
    using assms(7-11) by (intro signal_handler_full [where e = ew and p = p]) simp_all
  have d2: "deliver n (Suc c) s = Some ?s2"
    unfolding deliver_Suc_last d1 using h by simp
  have "\<exists>s'. signal_run_callback ?s2 = Some s' \<and>
           invoked s' = invoked ?s2 @ spec_dispatch ?s2 (replicate c n) \<and> pending s' = []"
    using assms(4-6,10) by (intro signal_run_callback_drains [where e = er and p = p]) simp_all
  then obtain s3 where s3: "signal_run_callback ?s2 = Some s3"
    "invoked s3 = invoked ?s2 @ spec_dispatch ?s2 (replicate c n)" by blast
  have "spec_dispatch ?s2 (replicate c n) =
          replicate c (signal_handler_func s (nat (n - 1)), signal_v s (nat (n - 1)), n)"
    using assms(1-3) by (simp add: spec_dispatch_def)
  then have "length (invoked s3) = length (invoked s) + c"
    unfolding s3(2) by simp
  then show ?thesis
    unfolding d2 using s3(1) by simp
qed




subsection \<open>The invariant of the registration table\<close>

lemma table_inv_cong:
  "signal_handler_func s' = signal_handler_func s \<Longrightarrow> k_disp s' = k_disp s \<Longrightarrow>
     table_inv s' = table_inv s"
  by (simp add: table_inv_def)

lemma signal_set_invalid:
  "signo < 1 \<or> signo > SIG_MAX \<Longrightarrow>
     snd (signal_set signo func v s) = s\<lparr>logged := logged s @ [Invalid_signal signo SIG_MAX]\<rparr>"
  by (auto simp: signal_set_def log_message_def)

lemma table_inv_signal_set:
  assumes "table_inv s" and "signo \<noteq> SIGKILL"
  shows "table_inv (snd (signal_set signo func v s))"
proof (cases "1 \<le> signo \<and> signo \<le> SIG_MAX")
  case False
  then have "signo < 1 \<or> signo > SIG_MAX" by auto
  from signal_set_invalid [OF this] show ?thesis
    using assms(1) by (simp add: table_inv_def)
next
  case True
  then have v: "1 \<le> signo" "signo \<le> SIG_MAX" by simp_all
  have neq: "nat (n - 1) \<noteq> nat (signo - 1)" if "1 \<le> n" "n \<noteq> signo" for n
    using that v by auto
  show ?thesis
    using assms neq
    by (auto simp: table_inv_def signal_set_fields [OF v])
qed

lemma table_inv_signal_handlers_clear:
  assumes "table_inv s"
  shows "table_inv (signal_handlers_clear st s)"
  unfolding signal_handlers_clear_def Let_def
  apply (rule table_inv_signal_set)+
        apply (rule assms)
       apply (simp_all add: signum)
  done

lemma close_frame:
  "signal_handler_func (snd (close fd s)) = signal_handler_func s"
  "k_disp (snd (close fd s)) = k_disp s"
  by (auto simp: close_def Let_def split: option.splits)

lemma table_inv_signal_handler_destroy:
  assumes "table_inv s"
  shows "table_inv (signal_handler_destroy s)"
proof -
  have "signal_handler_func (signal_handler_destroy s) = signal_handler_func (signal_handlers_clear SIG_IGN s)"
    "k_disp (signal_handler_destroy s) = k_disp (signal_handlers_clear SIG_IGN s)"
    by (simp_all add: signal_handler_destroy_def Let_def close_frame)
  then have "table_inv (signal_handler_destroy s) = table_inv (signal_handlers_clear SIG_IGN s)"
    by (rule table_inv_cong)
  then show ?thesis
    using table_inv_signal_handlers_clear [OF assms, of SIG_IGN] by simp
qed

lemma table_inv_signal_handler_init:
  assumes "\<forall>n \<in> {SIGILL, SIGFPE, SIGSEGV, SIGBUS, SIGKILL}. sa_handler (k_disp s n) \<noteq> signal_handler_addr"
  shows "table_inv (signal_handler_init s)"
proof -
  have "n \<in> init_sset \<or> n \<in> {SIGILL, SIGFPE, SIGSEGV, SIGBUS, SIGKILL}" if "n \<in> {1..SIG_MAX}" for n
    using that by (auto simp: init_sset_eq signum)
  then have c: "n \<in> init_sset \<or> sa_handler (k_disp s n) \<noteq> signal_handler_addr"
    if "n \<in> {1..SIG_MAX}" for n
    using that assms by blast
  show ?thesis
    unfolding table_inv_def signal_handler_init_fields
  proof (intro ballI)
    fix n assume n: "n \<in> {1..SIG_MAX}"
    then have "nat (n - 1) < nat SIG_MAX" by auto
    with c [OF n] show "((if nat (n - 1) < nat SIG_MAX then NULL else signal_handler_func s (nat (n - 1))) \<noteq> NULL) =
      (sa_handler (if n \<in> init_sset \<and> sa_handler (k_disp s n) \<noteq> SIG_IGN
                   then \<lparr>sa_handler = SIG_IGN, sa_flags = 0\<rparr> else k_disp s n) = signal_handler_addr)"
      by auto
  qed
qed

lemma table_inv_signal_handler_child_clear:
  assumes "\<forall>n \<in> {1..SIG_MAX}. sa_handler (k_disp s n) = signal_handler_addr \<longrightarrow>
             n \<in> parent_sig s \<and> n \<noteq> SIGKILL"
  shows "table_inv (signal_handler_child_clear s)"
proof -
  have "n \<le> SIGRTMAX \<and> n \<noteq> SIGSTOP" if "n \<in> {1..SIG_MAX}" for n
    using that by (auto simp: signum)
  then show ?thesis
    using assms by (auto simp: table_inv_def signal_handler_child_clear_fields)
qed

text \<open>
  Claim C3 as stated fails where \<open>sigaction\<close> fails: at process start the invariant
  holds; \<open>signal_set SIGKILL\<close> with a callback returns \<open>SIG_ERR\<close>, and leaves the callback
  in the slot of SIGKILL while the disposition of SIGKILL is still the default one.
  It also fails for \<open>signal_handler_init\<close> run while SIGSEGV, one of the signals the
  initialisation leaves alone, is routed to \<open>signal_handler\<close>: the callback is
  cleared, the disposition stays.
\<close>

theorem table_inv_counterexample:
  "table_inv boot \<and>
   fst (signal_set SIGKILL (Addr 1) (Addr 2) boot) = SIG_ERR \<and>
   signal_handler_func (snd (signal_set SIGKILL (Addr 1) (Addr 2) boot)) (nat (SIGKILL - 1)) \<noteq> NULL \<and>
   sa_handler (k_disp (snd (signal_set SIGKILL (Addr 1) (Addr 2) boot)) SIGKILL) \<noteq> signal_handler_addr \<and>
   \<not> table_inv (snd (signal_set SIGKILL (Addr 1) (Addr 2) boot)) \<and>
   table_inv (snd (signal_set SIGSEGV (Addr 1) (Addr 2) (signal_handler_init boot))) \<and>
   \<not> table_inv (signal_handler_init (snd (signal_set SIGSEGV (Addr 1) (Addr 2) (signal_handler_init boot))))"
proof -
  have v: "1 \<le> SIGKILL" "SIGKILL \<le> SIG_MAX" by (simp_all add: signum)
  have 1: "table_inv boot" by (simp add: table_inv_def boot_def)
  have 2: "fst (signal_set SIGKILL (Addr 1) (Addr 2) boot) = SIG_ERR"
    by (simp add: signal_set_def Let_def sigaction_def signum split: prod.splits)
  have 3: "signal_handler_func (snd (signal_set SIGKILL (Addr 1) (Addr 2) boot)) (nat (SIGKILL - 1)) \<noteq> NULL"
    by (simp add: signal_set_fields [OF v])
  have 4: "sa_handler (k_disp (snd (signal_set SIGKILL (Addr 1) (Addr 2) boot)) SIGKILL) \<noteq> signal_handler_addr"
    by (simp add: signal_set_fields [OF v] boot_def)
  have "SIGKILL \<in> {1..SIG_MAX}" using v by simp
  with 3 4 have 5: "\<not> table_inv (snd (signal_set SIGKILL (Addr 1) (Addr 2) boot))"
    unfolding table_inv_def by blast
  let ?t = "snd (signal_set SIGSEGV (Addr 1) (Addr 2) (signal_handler_init boot))"
  have w: "1 \<le> SIGSEGV" "SIGSEGV \<le> SIG_MAX" by (simp_all add: signum)
  have "table_inv (signal_handler_init boot)"
    by (rule table_inv_signal_handler_init) (simp add: boot_def)
  then have 6: "table_inv ?t"
    by (rule table_inv_signal_set) (simp add: signum)
  have x: "SIGSEGV \<notin> init_sset" "SIGSEGV \<noteq> SIGKILL" "nat (SIGSEGV - 1) < nat SIG_MAX"
    by (simp_all add: init_sset_eq signum)
  have a: "signal_handler_func (signal_handler_init ?t) (nat (SIGSEGV - 1)) = NULL"
    unfolding signal_handler_init_fields using x(3) by simp
  have b: "sa_handler (k_disp (signal_handler_init ?t) SIGSEGV) = signal_handler_addr"
    unfolding signal_handler_init_fields signal_set_fields [OF w] using x(1,2) by simp
  have "SIGSEGV \<in> {1..SIG_MAX}" using w by simp
  with a b have 7: "\<not> table_inv (signal_handler_init ?t)"
    unfolding table_inv_def by blast
  from 1 2 3 4 5 6 7 show ?thesis by blast
qed

lemma table_wf_boot: "table_wf boot"
  by (simp add: table_wf_def boot_def)

lemma table_wf_cong:
  "signal_handler_func s' = signal_handler_func s \<Longrightarrow> parent_sig s' = parent_sig s \<Longrightarrow>
   k_disp s' = k_disp s \<Longrightarrow> table_wf s' = table_wf s"
  by (simp add: table_wf_def)

lemma table_wf_signal_set:
  assumes "table_wf s"
  shows "table_wf (snd (signal_set signo func v s))"
proof (cases "1 \<le> signo \<and> signo \<le> SIG_MAX")
  case False
  then have "signo < 1 \<or> signo > SIG_MAX" by auto
  from signal_set_invalid [OF this] show ?thesis
    using assms by (simp add: table_wf_def)
next
  case True
  then have v: "1 \<le> signo" "signo \<le> SIG_MAX" by simp_all
  have neq: "nat (n - 1) \<noteq> nat (signo - 1)" if "1 \<le> n" "n \<noteq> signo" for n
    using that v by auto
  show ?thesis
    using assms neq v
    by (auto simp: table_wf_def signal_set_fields [OF v])
qed

lemma table_wf_signal_handlers_clear:
  assumes "table_wf s"
  shows "table_wf (signal_handlers_clear st s)"
  unfolding signal_handlers_clear_def Let_def
  apply (rule table_wf_signal_set)+
  apply (rule assms)
  done

lemma close_parent_sig: "parent_sig (snd (close fd s)) = parent_sig s"
  by (auto simp: close_def Let_def split: option.splits)

lemma table_wf_signal_handler_destroy:
  assumes "table_wf s"
  shows "table_wf (signal_handler_destroy s)"
proof -
  have "signal_handler_func (signal_handler_destroy s) = signal_handler_func (signal_handlers_clear SIG_IGN s)"
    "parent_sig (signal_handler_destroy s) = parent_sig (signal_handlers_clear SIG_IGN s)"
    "k_disp (signal_handler_destroy s) = k_disp (signal_handlers_clear SIG_IGN s)"
    by (simp_all add: signal_handler_destroy_def Let_def close_frame close_parent_sig)
  then have "table_wf (signal_handler_destroy s) = table_wf (signal_handlers_clear SIG_IGN s)"
    by (rule table_wf_cong)
  then show ?thesis
    using table_wf_signal_handlers_clear [OF assms, of SIG_IGN] by simp
qed

lemma table_wf_signal_handler_init:
  assumes "table_wf s"
  shows "table_wf (signal_handler_init s)"
proof -
  have k: "SIGKILL \<notin> init_sset" by (simp add: init_sset_eq)
  have "nat (n - 1) < nat SIG_MAX" if "n \<in> {1..SIG_MAX}" for n
    using that by auto
  then show ?thesis
    using assms k by (auto simp: table_wf_def signal_handler_init_fields)
qed

lemma table_wf_signal_handler_child_clear:
  assumes "table_wf s"
  shows "table_wf (signal_handler_child_clear s)"
proof -
  have "nat (n - 1) < nat SIG_MAX" if "n \<in> {1..SIG_MAX}" for n
    using that by auto
  then show ?thesis
    using assms by (auto simp: table_wf_def signal_handler_child_clear_fields)
qed

lemma table_inv_signal_set_sentinel:
  assumes "table_inv s" and "table_wf s" and "func = SIG_IGN \<or> func = SIG_DFL"
  shows "table_inv (snd (signal_set signo func v s))"
proof (cases "signo = SIGKILL")
  case False
  with assms(1) show ?thesis by (rule table_inv_signal_set)
next
  case True
  have v: "1 \<le> signo" "signo \<le> SIG_MAX" using True by (simp_all add: signum)
  have neq: "nat (n - 1) \<noteq> nat (signo - 1)" if "1 \<le> n" "n \<noteq> signo" for n
    using that v by auto
  have k: "sa_handler (k_disp s SIGKILL) \<noteq> signal_handler_addr"
    using assms(2) by (simp add: table_wf_def)
  have f: "signal_handler_func (snd (signal_set signo func v s)) =
           (signal_handler_func s)(nat (signo - 1) := NULL)"
    using assms(3) by (auto simp: signal_set_fields(1) [OF v])
  have d: "k_disp (snd (signal_set signo func v s)) = k_disp s"
    using signal_set_fields(4) [OF v, of func v s] True by simp
  show ?thesis
    unfolding table_inv_def f d
  proof (intro ballI)
    fix n assume n: "n \<in> {1..SIG_MAX}"
    show "(((signal_handler_func s)(nat (signo - 1) := NULL)) (nat (n - 1)) \<noteq> NULL) =
          (sa_handler (k_disp s n) = signal_handler_addr)"
    proof (cases "n = signo")
      case True
      with k \<open>signo = SIGKILL\<close> show ?thesis by simp
    next
      case False
      with n neq [of n] assms(1) show ?thesis by (simp add: table_inv_def)
    qed
  qed
qed

lemma table_inv_child_clear_wf:
  assumes "table_inv s" and "table_wf s"
  shows "table_inv (signal_handler_child_clear s)"
proof (rule table_inv_signal_handler_child_clear, intro ballI impI)
  fix n assume n: "n \<in> {1..SIG_MAX}" and r: "sa_handler (k_disp s n) = signal_handler_addr"
  from assms(1) n r have "signal_handler_func s (nat (n - 1)) \<noteq> NULL"
    by (simp add: table_inv_def)
  with assms(2) n have "n \<in> parent_sig s" by (simp add: table_wf_def)
  moreover from assms(2) r have "n \<noteq> SIGKILL" by (auto simp: table_wf_def)
  ultimately show "n \<in> parent_sig s \<and> n \<noteq> SIGKILL" by simp
qed

lemma table_inv_init_wf:
  assumes "table_wf s"
    and "\<forall>n \<in> {SIGILL, SIGFPE, SIGSEGV, SIGBUS}. sa_handler (k_disp s n) \<noteq> signal_handler_addr"
  shows "table_inv (signal_handler_init s)"
  using assms by (intro table_inv_signal_handler_init) (simp add: table_wf_def)

text \<open>
  Claim C3, amended. In a state where the invariant \<open>table_inv\<close> and the bookkeeping
  \<open>table_wf\<close> hold (\<open>table_wf\<close> holds at process start and is kept by every
  operation, so it holds in every state the operations reach), the invariant is
  kept by \<open>signal_ignore\<close>, by \<open>signal_handler_child_clear\<close> and by
  \<open>signal_handler_destroy\<close>; by \<open>signal_set\<close> except when it is called with a callback
  that is no sentinel for a valid signal number for which the kernel refuses
  \<open>sigaction\<close>; and by \<open>signal_handler_init\<close> when none of SIGILL, SIGFPE, SIGSEGV and
  SIGBUS, which the initialisation leaves alone, is routed to \<open>signal_handler\<close>.
\<close>

theorem table_inv_kept:
  assumes "table_inv s" and "table_wf s"
  shows "(\<not> (1 \<le> signo \<and> signo \<le> SIG_MAX \<and> func \<noteq> SIG_IGN \<and> func \<noteq> SIG_DFL \<and>
            fst (sigaction signo (Some a) s0) = Inl EINVAL)
          \<longrightarrow> table_inv (snd (signal_set signo func v s))) \<and>
     table_inv (snd (signal_ignore signo s)) \<and>
     ((\<forall>n \<in> {SIGILL, SIGFPE, SIGSEGV, SIGBUS}. sa_handler (k_disp s n) \<noteq> signal_handler_addr)
          \<longrightarrow> table_inv (signal_handler_init s)) \<and>
     table_inv (signal_handler_child_clear s) \<and>
     table_inv (signal_handler_destroy s) \<and>
     table_wf (snd (signal_set signo func v s)) \<and>
     table_wf (snd (signal_ignore signo s)) \<and>
     table_wf (signal_handler_init s) \<and>
     table_wf (signal_handler_child_clear s) \<and>
     table_wf (signal_handler_destroy s)"
proof -
  have 1: "table_inv (snd (signal_set signo func v s))"
    if h: "\<not> (1 \<le> signo \<and> signo \<le> SIG_MAX \<and> func \<noteq> SIG_IGN \<and> func \<noteq> SIG_DFL \<and>
            fst (sigaction signo (Some a) s0) = Inl EINVAL)"
  proof (cases "func = SIG_IGN \<or> func = SIG_DFL")
    case True
    with assms show ?thesis by (intro table_inv_signal_set_sentinel)
  next
    case False
    with h have "signo \<noteq> SIGKILL" by (auto simp: sigaction_fails_iff signum)
    with assms(1) show ?thesis by (rule table_inv_signal_set)
  qed
  have 2: "table_inv (snd (signal_ignore signo s))"
    unfolding signal_ignore_def using assms by (intro table_inv_signal_set_sentinel) simp_all
  have 3: "table_inv (signal_handler_init s)"
    if "\<forall>n \<in> {SIGILL, SIGFPE, SIGSEGV, SIGBUS}. sa_handler (k_disp s n) \<noteq> signal_handler_addr"
    using assms(2) that by (rule table_inv_init_wf)
  note 4 = table_inv_child_clear_wf [OF assms]
  note 5 = table_inv_signal_handler_destroy [OF assms(1)]
  note 6 = table_wf_signal_set [OF assms(2), of signo func v]
  have 7: "table_wf (snd (signal_ignore signo s))"
    unfolding signal_ignore_def by (rule table_wf_signal_set [OF assms(2)])
  note 8 = table_wf_signal_handler_init [OF assms(2)]
  note 9 = table_wf_signal_handler_child_clear [OF assms(2)]
  note 10 = table_wf_signal_handler_destroy [OF assms(2)]
  from 1 2 3 4 5 6 7 8 9 10 show ?thesis by blast
qed

theorem table_inv_kept_witness:
  "table_inv (snd (signal_set SIGHUP (Addr 1) (Addr 2) (signal_handler_init boot))) \<and>
   table_wf (snd (signal_set SIGHUP (Addr 1) (Addr 2) (signal_handler_init boot))) \<and>
   signal_handler_func (snd (signal_set SIGHUP (Addr 1) (Addr 2) (signal_handler_init boot))) (nat (SIGHUP - 1)) \<noteq> NULL \<and>
   table_inv (snd (signal_set SIGTERM (Addr 3) (Addr 4) (snd (signal_set SIGHUP (Addr 1) (Addr 2) (signal_handler_init boot))))) \<and>
   table_inv (snd (signal_ignore SIGKILL (snd (signal_set SIGHUP (Addr 1) (Addr 2) (signal_handler_init boot))))) \<and>
   table_inv (signal_handler_init (snd (signal_set SIGHUP (Addr 1) (Addr 2) (signal_handler_init boot)))) \<and>
   table_inv (signal_handler_child_clear (snd (signal_set SIGHUP (Addr 1) (Addr 2) (signal_handler_init boot)))) \<and>
   table_inv (signal_handler_destroy (snd (signal_set SIGHUP (Addr 1) (Addr 2) (signal_handler_init boot))))"
proof -
  let ?s = "snd (signal_set SIGHUP (Addr 1) (Addr 2) (signal_handler_init boot))"
  let ?a = "\<lparr>sa_handler = signal_handler_addr, sa_flags = SA_RESTART\<rparr>"
  have v: "1 \<le> SIGHUP" "SIGHUP \<le> SIG_MAX" by (simp_all add: signum)
  have "table_inv (signal_handler_init boot)"
    by (rule table_inv_signal_handler_init) (simp add: boot_def)
  then have inv: "table_inv ?s"
    by (rule table_inv_signal_set) (simp add: signum)
  have wf: "table_wf ?s"
    by (intro table_wf_signal_set table_wf_signal_handler_init table_wf_boot)
  have nn: "signal_handler_func ?s (nat (SIGHUP - 1)) \<noteq> NULL"
    by (simp add: signal_set_fields [OF v])
  have kd: "sa_handler (k_disp ?s n) = signal_handler_addr \<longleftrightarrow> n = SIGHUP" for n
    unfolding signal_set_fields [OF v] signal_handler_init_fields
    by (simp add: boot_def) (simp add: signum)
  have h1: "\<not> (1 \<le> SIGTERM \<and> SIGTERM \<le> SIG_MAX \<and> Addr 3 \<noteq> SIG_IGN \<and> Addr 3 \<noteq> SIG_DFL \<and>
      fst (sigaction SIGTERM (Some ?a) ?s) = Inl EINVAL)"
    by (simp add: sigaction_fails_iff) (simp add: signum)
  have h2: "\<forall>n \<in> {SIGILL, SIGFPE, SIGSEGV, SIGBUS}. sa_handler (k_disp ?s n) \<noteq> signal_handler_addr"
    unfolding kd by (simp add: signum)
  show ?thesis
    using table_inv_kept [OF inv wf, of SIGTERM "Addr 3" ?a ?s "Addr 4"]
      table_inv_kept [OF inv wf, of SIGKILL] inv wf nn h1 h2
    by blast
qed

subsection \<open>signal_set and the signal mask\<close>

text \<open>
  For a valid signal number and a callback that is no sentinel, the system calls of
  \<open>signal_set\<close> are: block the signal, \<open>sigaction\<close>, and, only when \<open>sigaction\<close> succeeded
  (for every valid number but SIGKILL), unblock the signal.
\<close>

lemma signal_set_mask_calls:
  assumes "1 \<le> signo" "signo \<le> SIG_MAX" "func \<noteq> SIG_IGN" "func \<noteq> SIG_DFL"
  shows "calls (snd (signal_set signo func v s)) = calls s @
     [Sys_sigprocmask SIG_BLOCK {signo},
      Sys_sigaction signo (Some \<lparr>sa_handler = signal_handler_addr, sa_flags = SA_RESTART\<rparr>)] @
     (if signo = SIGKILL then [] else [Sys_sigprocmask SIG_UNBLOCK {signo}])"
    and "signo \<noteq> SIGKILL \<Longrightarrow> signo \<notin> k_blocked (snd (signal_set signo func v s))"
  using assms
  by (auto simp: signal_set_def Let_def sigaction_def sigprocmask_def sigaddset_def sigemptyset_def
        signum split: prod.splits sum.splits)



end
